theory Spec2Isabelle
  imports Complex_Main "HOL-Library.AList" "HOL-Library.Log_Nat" "HOL-Library.Word"
begin

section \<open>MeshAudio: relay broker (src/meshaudio.js) and viewer client (src/web/meshaudio.js)\<close>

text \<open>
  The broker of \<^verbatim>\<open>createMeshAudioPlugin\<close> keeps four tables (\<^verbatim>\<open>agents\<close>,
  \<^verbatim>\<open>sessions\<close>, \<^verbatim>\<open>viewers\<close>, \<^verbatim>\<open>activeSessionByDevice\<close>) and the set
  \<^verbatim>\<open>heartbeats\<close>, and mutates them from event handlers. Each handler is a function
  from the broker state to the new broker state; an event of the event loop is one
  application of a handler. The variables a closure captures (\<^verbatim>\<open>ws\<close>, \<^verbatim>\<open>deviceId\<close>,
  \<^verbatim>\<open>sessionId\<close>) are arguments of the handler. \<^verbatim>\<open>Date.now()\<close> and the identifiers
  drawn by \<^verbatim>\<open>uuidv4()\<close> are arguments as well.
\<close>

subsection \<open>JSON values and JavaScript truthiness\<close>

text \<open>
  Control messages are JSON. A text frame is kept as the JSON value it serialises
  (\<^verbatim>\<open>JSON.stringify\<close> and \<^verbatim>\<open>JSON.parse\<close> are not modelled character by character): an
  incoming text is \<open>None\<close> when \<^verbatim>\<open>JSON.parse\<close> throws, and \<open>Some v\<close> otherwise. A
  parsed object lists each of its keys once.
\<close>

datatype json =
  JNull
  | JBool bool
  | JNum rat
  | JStr string
  | JArr "json list"
  | JObj "(string \<times> json) list"

datatype js_error = TypeError | RangeError | NotSupportedError

text \<open>\<^verbatim>\<open>msg.key\<close> on a parsed value that is not \<^verbatim>\<open>null\<close>: \<open>None\<close> is \<^verbatim>\<open>undefined\<close>.\<close>

fun js_get :: "json \<Rightarrow> string \<Rightarrow> json option" where
  "js_get (JObj kvs) k = map_of kvs k"
| "js_get _ k = None"

text \<open>Truthiness of a value that may be \<^verbatim>\<open>undefined\<close>, and of a string.\<close>

fun truthy :: "json option \<Rightarrow> bool" where
  "truthy None = False"
| "truthy (Some JNull) = False"
| "truthy (Some (JBool b)) = b"
| "truthy (Some (JNum n)) = (n \<noteq> 0)"
| "truthy (Some (JStr s)) = (s \<noteq> [])"
| "truthy (Some (JArr _)) = True"
| "truthy (Some (JObj _)) = True"

fun truthy_str :: "string option \<Rightarrow> bool" where
  "truthy_str None = False"
| "truthy_str (Some s) = (s \<noteq> [])"

subsection \<open>WebSocket objects of the \<^verbatim>\<open>ws\<close> package\<close>

text \<open>
  A socket object has a \<^verbatim>\<open>readyState\<close>, the \<^verbatim>\<open>isAlive\<close> flag that \<^verbatim>\<open>attachHeartbeat\<close>
  adds, and, in the model, the list of frames written to its peer. The package is not part
  of the repository; its methods are modelled as documented: \<^verbatim>\<open>send\<close> writes a frame
  when the socket is open and delivers nothing once it is closing or closed, \<^verbatim>\<open>close\<close>
  starts the closing handshake of an open socket with a close frame, \<^verbatim>\<open>terminate\<close>
  destroys the connection without a close frame. The \<^verbatim>\<open>'close'\<close> event comes later,
  as an event of its own.
\<close>

datatype ready_state = CONNECTING | OPEN | CLOSING | CLOSED

datatype frame =
  Text json
  | Binary "8 word list"
  | CloseFrame nat string

record socket =
  readyState :: ready_state
  isAlive :: bool
  sent :: "frame list"

definition ws_send :: "frame \<Rightarrow> socket \<Rightarrow> socket" where
  "ws_send f s = (if readyState s = OPEN then s\<lparr>sent := sent s @ [f]\<rparr> else s)"

definition ws_close :: "nat \<Rightarrow> string \<Rightarrow> socket \<Rightarrow> socket" where
  "ws_close code reason s =
     (if readyState s = OPEN
      then s\<lparr>readyState := CLOSING, sent := sent s @ [CloseFrame code reason]\<rparr>
      else s)"

definition ws_terminate :: "socket \<Rightarrow> socket" where
  "ws_terminate s = (if readyState s = CLOSED then s else s\<lparr>readyState := CLOSING\<rparr>)"

text \<open>The library sets \<^verbatim>\<open>readyState\<close> to closed before it emits \<^verbatim>\<open>'close'\<close>.\<close>

definition ws_closed :: "socket \<Rightarrow> socket" where
  "ws_closed s = s\<lparr>readyState := CLOSED\<rparr>"

text \<open>A socket as the server hands it to a \<^verbatim>\<open>'connection'\<close> listener.\<close>

definition new_socket :: socket where
  "new_socket = \<lparr>readyState = OPEN, isAlive = False, sent = []\<rparr>"

subsection \<open>Broker state\<close>

record session =
  deviceId :: string
  token :: string
  userId :: string
  expiresAt :: int

text \<open>
  Device sockets come from \<^verbatim>\<open>agentWss\<close> and viewer sockets from \<^verbatim>\<open>viewerWss\<close>: two
  stores of socket objects, each indexed by a number. \<^verbatim>\<open>sessions\<close> is a JavaScript
  \<^verbatim>\<open>Map\<close> that the sweep iterates, so it is an association list in insertion order;
  the other three tables are only looked up.
\<close>

datatype wsref = AgentWs nat | ViewerWs nat

record broker =
  agentSecret :: string
  tokenTtlMs :: int
  allowUnauthenticated :: bool
  maxListenersPerDevice :: int
  agents :: "string \<rightharpoonup> nat"
  sessions :: "(string \<times> session) list"
  viewers :: "string \<rightharpoonup> nat"
  activeSessionByDevice :: "string \<rightharpoonup> string"
  heartbeats :: "wsref set"
  agentSockets :: "nat \<Rightarrow> socket"
  viewerSockets :: "nat \<Rightarrow> socket"

definition on_agent_ws :: "nat \<Rightarrow> (socket \<Rightarrow> socket) \<Rightarrow> broker \<Rightarrow> broker" where
  "on_agent_ws w f st = st\<lparr>agentSockets := (agentSockets st)(w := f (agentSockets st w))\<rparr>"

definition on_viewer_ws :: "nat \<Rightarrow> (socket \<Rightarrow> socket) \<Rightarrow> broker \<Rightarrow> broker" where
  "on_viewer_ws w f st = st\<lparr>viewerSockets := (viewerSockets st)(w := f (viewerSockets st w))\<rparr>"

fun on_ws :: "wsref \<Rightarrow> (socket \<Rightarrow> socket) \<Rightarrow> broker \<Rightarrow> broker" where
  "on_ws (AgentWs w) f st = on_agent_ws w f st"
| "on_ws (ViewerWs w) f st = on_viewer_ws w f st"

text \<open>The state right after \<^verbatim>\<open>createMeshAudioPlugin(options)\<close>.\<close>

definition createMeshAudioPlugin :: "string \<Rightarrow> int \<Rightarrow> bool \<Rightarrow> int \<Rightarrow> broker" where
  "createMeshAudioPlugin secret ttl unauth maxl =
     \<lparr>agentSecret = secret, tokenTtlMs = ttl, allowUnauthenticated = unauth,
      maxListenersPerDevice = maxl,
      agents = Map.empty, sessions = [], viewers = Map.empty,
      activeSessionByDevice = Map.empty, heartbeats = {},
      agentSockets = (\<lambda>_. new_socket), viewerSockets = (\<lambda>_. new_socket)\<rparr>"

subsection \<open>Token issuance (\<^verbatim>\<open>POST /token\<close>)\<close>

text \<open>
  \<open>authed\<close> says whether the request carries a user or a session user id
  (\<^verbatim>\<open>requireAuth\<close>); \<open>sid\<close> and \<open>tok\<close> are the two values of \<^verbatim>\<open>uuidv4()\<close>. The result
  is the HTTP status with the new state.
\<close>

definition postToken ::
  "broker \<Rightarrow> bool \<Rightarrow> string option \<Rightarrow> string \<Rightarrow> string \<Rightarrow> string \<Rightarrow> int \<Rightarrow> nat \<times> broker" where
  "postToken st authed dev sid tok uid now =
     (if \<not> allowUnauthenticated st \<and> \<not> authed then (401, st)
      else if \<not> truthy_str dev then (400, st)
      else (200, st\<lparr>sessions := AList.update sid
              \<lparr>deviceId = the dev, token = tok, userId = uid, expiresAt = now + tokenTtlMs st\<rparr>
              (sessions st)\<rparr>))"

subsection \<open>Sending to a device, heartbeat registration\<close>

definition sendToAgent :: "broker \<Rightarrow> string \<Rightarrow> json \<Rightarrow> broker \<times> bool" where
  "sendToAgent st dev payload =
     (case agents st dev of
        None \<Rightarrow> (st, False)
      | Some w \<Rightarrow>
          if readyState (agentSockets st w) \<noteq> OPEN then (st, False)
          else (on_agent_ws w (ws_send (Text payload)) st, True))"

definition attachHeartbeat :: "wsref \<Rightarrow> broker \<Rightarrow> broker" where
  "attachHeartbeat r st =
     (on_ws r (\<lambda>s. s\<lparr>isAlive := True\<rparr>) st)\<lparr>heartbeats := insert r (heartbeats st)\<rparr>"

definition stop_msg :: json where
  "stop_msg = JObj [(''action'', JStr ''stop'')]"

definition status_msg :: json where
  "status_msg = JObj [(''action'', JStr ''status'')]"

definition start_msg :: "string \<Rightarrow> json \<Rightarrow> json" where
  "start_msg sid mode =
     JObj [(''action'', JStr ''start''), (''sessionId'', JStr sid), (''mode'', mode)]"

definition error_msg :: "string \<Rightarrow> json" where
  "error_msg reason = JObj [(''type'', JStr ''error''), (''reason'', JStr reason)]"

subsection \<open>Expiry sweep\<close>

text \<open>
  \<^verbatim>\<open>cleanupExpiredSessions\<close> walks the \<^verbatim>\<open>sessions\<close> map in insertion order. The body
  deletes only the entry it is visiting, so the walk visits every entry of the map as it
  was when the sweep began: a left fold over that list.
\<close>

definition sweep_step :: "int \<Rightarrow> broker \<Rightarrow> string \<times> session \<Rightarrow> broker" where
  "sweep_step now st e =
     (let sessionId = fst e; session = snd e in
      if expiresAt session < now then
        let st1 = (case viewers st sessionId of
                     Some v \<Rightarrow> on_viewer_ws v (ws_close 4000 ''session expired'') st
                   | None \<Rightarrow> st);
            st2 = (if activeSessionByDevice st1 (deviceId session) = Some sessionId
                   then fst (sendToAgent
                          (st1\<lparr>activeSessionByDevice :=
                                 (activeSessionByDevice st1)(deviceId session := None)\<rparr>)
                          (deviceId session) stop_msg)
                   else st1)
        in st2\<lparr>sessions := AList.delete sessionId (sessions st2)\<rparr>
      else st)"

definition cleanupExpiredSessions :: "broker \<Rightarrow> int \<Rightarrow> broker" where
  "cleanupExpiredSessions st now = foldl (sweep_step now) st (sessions st)"

subsection \<open>Device connections\<close>

text \<open>
  \<open>tok\<close> and \<open>dev\<close> are the values of \<^verbatim>\<open>token\<close> and \<^verbatim>\<open>deviceId\<close> after the
  query parameter and the header have been combined with \<^verbatim>\<open>||\<close>.
\<close>

definition onAgentConnected :: "broker \<Rightarrow> nat \<Rightarrow> string option \<Rightarrow> string option \<Rightarrow> broker" where
  "onAgentConnected st ws dev tok =
     (if \<not> truthy_str dev \<or> (agentSecret st \<noteq> [] \<and> tok \<noteq> Some (agentSecret st))
      then on_agent_ws ws (ws_close 1008 ''unauthorized'') st
      else
        let d = the dev;
            st1 = (case agents st d of
                     Some existing \<Rightarrow> on_agent_ws existing ws_terminate st
                   | None \<Rightarrow> st);
            st2 = st1\<lparr>agents := (agents st1)(d \<mapsto> ws)\<rparr>
        in attachHeartbeat (AgentWs ws) st2)"

text \<open>
  The two \<^verbatim>\<open>'close'\<close> listeners of a device socket, in the order they were added: the
  one of \<^verbatim>\<open>attachHeartbeat\<close>, then the one of \<^verbatim>\<open>onAgentConnected\<close>.
\<close>

definition agent_on_close :: "broker \<Rightarrow> nat \<Rightarrow> string \<Rightarrow> broker" where
  "agent_on_close st ws d =
     (let st0 = on_agent_ws ws ws_closed st;
          st1 = st0\<lparr>heartbeats := heartbeats st0 - {AgentWs ws}\<rparr>;
          st2 = st1\<lparr>agents := (agents st1)(d := None)\<rparr>;
          activeSession = activeSessionByDevice st2 d
      in if truthy_str activeSession then
           let st3 = st2\<lparr>activeSessionByDevice := (activeSessionByDevice st2)(d := None)\<rparr>
           in (case viewers st3 (the activeSession) of
                 Some v \<Rightarrow> on_viewer_ws v
                   (ws_send (Text (JObj [(''type'', JStr ''status''),
                                          (''state'', JStr ''agent_disconnected'')]))) st3
               | None \<Rightarrow> st3)
         else st2)"

definition forwardAudio :: "broker \<Rightarrow> string \<Rightarrow> 8 word list \<Rightarrow> broker" where
  "forwardAudio st d data =
     (if length data < 1 \<or> data ! 0 \<noteq> 1 then st
      else
        let sessionId = activeSessionByDevice st d in
        if \<not> truthy_str sessionId then st
        else (case viewers st (the sessionId) of
                None \<Rightarrow> st
              | Some viewer \<Rightarrow>
                  if readyState (viewerSockets st viewer) \<noteq> OPEN then st
                  else on_viewer_ws viewer (ws_send (Binary data)) st))"

text \<open>A message of a device socket: a binary frame, or a text with its parse result.\<close>

datatype incoming = BinaryMsg "8 word list" | TextMsg "json option"

fun agent_on_message :: "broker \<Rightarrow> string \<Rightarrow> incoming \<Rightarrow> broker" where
  "agent_on_message st d (BinaryMsg data) = forwardAudio st d data"
| "agent_on_message st d (TextMsg None) = st"
| "agent_on_message st d (TextMsg (Some msg)) =
     (let sessionId = activeSessionByDevice st d in
      if truthy_str sessionId then
        (case viewers st (the sessionId) of
           Some v \<Rightarrow> on_viewer_ws v (ws_send (Text msg)) st
         | None \<Rightarrow> st)
      else st)"

subsection \<open>Viewer connections\<close>

definition viewer_connected_msg :: "string \<Rightarrow> string \<Rightarrow> bool \<Rightarrow> json" where
  "viewer_connected_msg d sid online =
     JObj [(''type'', JStr ''viewer_connected''), (''deviceId'', JStr d),
           (''sessionId'', JStr sid),
           (''agent'', JStr (if online then ''online'' else ''offline''))]"

definition onViewerConnected ::
  "broker \<Rightarrow> nat \<Rightarrow> string option \<Rightarrow> string option \<Rightarrow> int \<Rightarrow> broker" where
  "onViewerConnected st ws sid tok now =
     (let session = (if truthy_str sid then map_of (sessions st) (the sid) else None) in
      case session of
        None \<Rightarrow> on_viewer_ws ws (ws_close 1008 ''invalid session'') st
      | Some s \<Rightarrow>
          if Some (token s) \<noteq> tok \<or> expiresAt s < now
          then on_viewer_ws ws (ws_close 1008 ''invalid session'') st
          else
            let sessionId = the sid;
                st1 = st\<lparr>viewers := (viewers st)(sessionId \<mapsto> ws)\<rparr>;
                st2 = attachHeartbeat (ViewerWs ws) st1
            in on_viewer_ws ws
                 (ws_send (Text (viewer_connected_msg (deviceId s) sessionId
                                   (agents st2 (deviceId s) \<noteq> None)))) st2)"

definition viewer_on_close :: "broker \<Rightarrow> nat \<Rightarrow> string \<Rightarrow> string \<Rightarrow> broker" where
  "viewer_on_close st ws sessionId d =
     (let st0 = on_viewer_ws ws ws_closed st;
          st1 = st0\<lparr>heartbeats := heartbeats st0 - {ViewerWs ws}\<rparr>;
          st2 = st1\<lparr>viewers := (viewers st1)(sessionId := None)\<rparr>
      in if activeSessionByDevice st2 d = Some sessionId
         then fst (sendToAgent
                (st2\<lparr>activeSessionByDevice := (activeSessionByDevice st2)(d := None)\<rparr>)
                d stop_msg)
         else st2)"

text \<open>
  The \<^verbatim>\<open>'message'\<close> listener of a viewer socket. The text is parsed whatever the frame
  type; \<open>None\<close> is a parse error, which the listener swallows. Reading \<^verbatim>\<open>msg.action\<close>
  of \<^verbatim>\<open>null\<close> throws outside the \<^verbatim>\<open>try\<close>.
\<close>

definition viewer_on_message ::
  "broker \<Rightarrow> nat \<Rightarrow> string \<Rightarrow> string \<Rightarrow> json option \<Rightarrow> js_error + broker" where
  "viewer_on_message st ws sessionId d parsed =
     (case parsed of
        None \<Rightarrow> Inr st
      | Some JNull \<Rightarrow> Inl TypeError
      | Some msg \<Rightarrow>
          if js_get msg ''action'' = Some (JStr ''start'') then
            let current = activeSessionByDevice st d in
            if truthy_str current \<and> current \<noteq> Some sessionId \<and> maxListenersPerDevice st \<le> 1
            then Inr (on_viewer_ws ws
                        (ws_send (Text (error_msg ''another listener is active''))) st)
            else
              let st1 = st\<lparr>activeSessionByDevice := (activeSessionByDevice st)(d \<mapsto> sessionId)\<rparr>;
                  mode = (if truthy (js_get msg ''mode'') then the (js_get msg ''mode'')
                          else JStr ''wss'');
                  r = sendToAgent st1 d (start_msg sessionId mode)
              in if \<not> snd r
                 then Inr (on_viewer_ws ws
                             (ws_send (Text (error_msg ''agent not connected''))) (fst r))
                 else Inr (fst r)
          else if js_get msg ''action'' = Some (JStr ''stop'') then
            Inr (fst (sendToAgent
                   (st\<lparr>activeSessionByDevice := (activeSessionByDevice st)(d := None)\<rparr>)
                   d stop_msg))
          else if js_get msg ''action'' = Some (JStr ''status'') then
            Inr (fst (sendToAgent st d status_msg))
          else Inr st)"

section \<open>The viewer client (src/web/meshaudio.js)\<close>

subsection \<open>Reading a \<^verbatim>\<open>DataView\<close>\<close>

text \<open>
  The buffer of a binary message is a list of bytes. A read beyond the end of the buffer
  throws \<^verbatim>\<open>RangeError\<close>. All multi-byte reads of the client pass \<^verbatim>\<open>true\<close> for
  \<^verbatim>\<open>littleEndian\<close>; \<open>le_value\<close> is the number a byte sequence denotes in that order.
\<close>

fun le_value :: "8 word list \<Rightarrow> nat" where
  "le_value [] = 0"
| "le_value (x # xs) = unat x + 256 * le_value xs"

definition getUint8 :: "8 word list \<Rightarrow> nat \<Rightarrow> js_error + nat" where
  "getUint8 b off = (if off + 1 \<le> length b then Inr (unat (b ! off)) else Inl RangeError)"

definition getUint32 :: "8 word list \<Rightarrow> nat \<Rightarrow> js_error + nat" where
  "getUint32 b off =
     (if off + 4 \<le> length b then Inr (le_value (take 4 (drop off b))) else Inl RangeError)"

definition getBigInt64 :: "8 word list \<Rightarrow> nat \<Rightarrow> js_error + int" where
  "getBigInt64 b off =
     (if off + 8 \<le> length b
      then Inr (let u = int (le_value (take 8 (drop off b)))
                in if u < 2 ^ 63 then u else u - 2 ^ 64)
      else Inl RangeError)"

definition bindE :: "js_error + 'a \<Rightarrow> ('a \<Rightarrow> js_error + 'b) \<Rightarrow> js_error + 'b" where
  "bindE r f = (case r of Inl e \<Rightarrow> Inl e | Inr v \<Rightarrow> f v)"

text \<open>
  \<^verbatim>\<open>Number(x)\<close> of an integer \<open>x\<close>, and the sum \<^verbatim>\<open>hi * 4294967296 + lo\<close> of the
  fallback branch: the nearest number with a 53-bit significand, ties to even. Integers of
  magnitude up to \<open>2 ^ 53\<close> are kept. \<open>excess_bits a\<close> is the number of low bits of \<open>a\<close>
  that do not fit.
\<close>

function excess_bits :: "nat \<Rightarrow> nat" where
  "excess_bits a = (if a < 2 ^ 53 then 0 else Suc (excess_bits (a div 2)))"
  by pat_completeness auto
termination
  by (relation "measure id") auto

definition to_number :: "int \<Rightarrow> int" where
  "to_number x =
     (let a = nat \<bar>x\<bar>;
          e = excess_bits a;
          q = a div 2 ^ e;
          r = a mod 2 ^ e;
          q' = (if 2 * r > 2 ^ e \<or> (2 * r = 2 ^ e \<and> odd q) then q + 1 else q)
      in sgn x * int (q' * 2 ^ e))"

subsection \<open>Arithmetic on JavaScript numbers\<close>

text \<open>
  A JavaScript number is a binary64 value, and the sum or quotient of two numbers is the
  exact result rounded to the nearest binary64 value, ties to the even significand. The
  finite binary64 values are rationals, so a number is modelled by the rational it
  denotes and every arithmetic result of the code passes through \<open>fl\<close>. \<open>rne\<close> rounds
  to the nearest integer, ties to even; \<open>binade x\<close> is the exponent \<open>e\<close> with
  \<open>2 ^ e \<le> \<bar>x\<bar> < 2 ^ (e + 1)\<close>; \<open>ulp x\<close> is the spacing of the binary64 values around
  \<open>x\<close>, with the subnormal spacing below \<open>2 ^ - 1022\<close>. Comparison and \<^verbatim>\<open>Math.max\<close>
  are exact. The exponent has no upper bound here: a result beyond the largest binary64
  value, which JavaScript turns into \<^verbatim>\<open>Infinity\<close>, stays finite.
\<close>

definition rne :: "rat \<Rightarrow> int" where
  "rne r =
     (let f = \<lfloor>r\<rfloor>; d = r - of_int f
      in if d < 1 / 2 then f
         else if 1 / 2 < d then f + 1
         else if even f then f else f + 1)"

definition binade :: "rat \<Rightarrow> int" where
  "binade x =
     (let a = fst (quotient_of \<bar>x\<bar>); b = snd (quotient_of \<bar>x\<bar>);
          k = bitlen a - bitlen b
      in if 2 powi k \<le> \<bar>x\<bar> then k else k - 1)"

definition ulp :: "rat \<Rightarrow> rat" where
  "ulp x = 2 powi (max (binade x) (- 1022) - 52)"

definition fl :: "rat \<Rightarrow> rat" where
  "fl x = (if x = 0 then 0 else sgn x * (of_int (rne (\<bar>x\<bar> / ulp x)) * ulp x))"

subsection \<open>Player and client state\<close>

text \<open>
  \<open>ctxReady\<close>: \<^verbatim>\<open>ctx\<close> and \<^verbatim>\<open>gain\<close> are set. \<open>decoder\<close>: \<open>None\<close> while there is no
  decoder, otherwise the chunks handed to \<^verbatim>\<open>decoder.decode\<close> so far. \<open>rateMin\<close>,
  \<open>rateMax\<close> and \<open>channelMax\<close> bound the sample rates and the channel counts for which
  the browser's \<^verbatim>\<open>createBuffer\<close> makes a buffer. Times are numbers of seconds.
\<close>

record chunk =
  chunkTimestamp :: int
  chunkData :: "8 word list"

record player =
  ctxReady :: bool
  decoder :: "chunk list option"
  playHead :: rat
  baseTimestampUs :: "int option"
  playStart :: rat
  jitterSec :: rat
  rateMin :: nat
  rateMax :: nat
  channelMax :: nat

record client =
  state :: string
  player :: player
  hasGetBigInt64 :: bool
  onStatus :: bool
  statusCalls :: "string list"

text \<open>
  The constructor of \<^verbatim>\<open>MeshAudioPlayer\<close>, and the player after a successful \<^verbatim>\<open>init()\<close>.
  The jitter budget is the number written \<^verbatim>\<open>0.08\<close>.
\<close>

definition MeshAudioPlayer :: "nat \<Rightarrow> nat \<Rightarrow> nat \<Rightarrow> player" where
  "MeshAudioPlayer rmin rmax cmax =
     \<lparr>ctxReady = False, decoder = None, playHead = 0, baseTimestampUs = None,
      playStart = 0, jitterSec = fl (2 / 25), rateMin = rmin, rateMax = rmax,
      channelMax = cmax\<rparr>"

definition init :: "player \<Rightarrow> player" where
  "init p = p\<lparr>ctxReady := True, decoder := Some []\<rparr>"

text \<open>
  The browser's \<^verbatim>\<open>EncodedAudioChunk\<close> constructor declares \<^verbatim>\<open>timestamp\<close> as
  \<^verbatim>\<open>[EnforceRange] long long\<close>. The value it is given is converted with \<^verbatim>\<open>ToNumber\<close>,
  which throws \<^verbatim>\<open>TypeError\<close> for a BigInt, and a number outside the safe integers is
  refused with \<^verbatim>\<open>TypeError\<close> as well. \<open>js_numeric\<close> tells a number from a BigInt.
  \<^verbatim>\<open>enqueue\<close> builds the chunk from \<^verbatim>\<open>BigInt(timestampMs) * 1000n\<close> and hands it to
  \<^verbatim>\<open>decoder.decode\<close>.
\<close>

datatype js_numeric = JsNumber int | JsBigInt int

definition EncodedAudioChunk :: "js_numeric \<Rightarrow> 8 word list \<Rightarrow> js_error + chunk" where
  "EncodedAudioChunk ts data =
     (case ts of
        JsBigInt _ \<Rightarrow> Inl TypeError
      | JsNumber n \<Rightarrow>
          if \<bar>n\<bar> < 2 ^ 53 then Inr \<lparr>chunkTimestamp = n, chunkData = data\<rparr>
          else Inl TypeError)"

definition enqueue :: "player \<Rightarrow> 8 word list \<Rightarrow> int \<Rightarrow> js_error + player" where
  "enqueue p opusPayload timestampMs =
     (case decoder p of
        None \<Rightarrow> Inr p
      | Some q \<Rightarrow>
          bindE (EncodedAudioChunk (JsBigInt (timestampMs * 1000)) opusPayload) (\<lambda>chunk.
            Inr (p\<lparr>decoder := Some (q @ [chunk])\<rparr>)))"

definition setState :: "client \<Rightarrow> string \<Rightarrow> client" where
  "setState c s =
     (let c1 = c\<lparr>state := s\<rparr>
      in if onStatus c1 then c1\<lparr>statusCalls := statusCalls c1 @ [s]\<rparr> else c1)"

subsection \<open>\<^verbatim>\<open>MeshAudioClient.handleBinary\<close>\<close>

text \<open>
  The timestamp is never \<^verbatim>\<open>NaN\<close>, so the \<^verbatim>\<open>Number.isNaN\<close> test has no branch here.
\<close>

definition handleBinary :: "client \<Rightarrow> 8 word list \<Rightarrow> js_error + client" where
  "handleBinary c buffer =
     (if length buffer < 13 then Inr c
      else
        bindE (getUint8 buffer 0) (\<lambda>type.
          if type \<noteq> 1 then Inr c
          else
            bindE (getUint32 buffer 1) (\<lambda>seq.
              bindE (if hasGetBigInt64 c
                     then bindE (getBigInt64 buffer (1 + 4)) (\<lambda>v. Inr (to_number v))
                     else bindE (getUint32 buffer (1 + 4)) (\<lambda>lo.
                            bindE (getUint32 buffer (1 + 4 + 4)) (\<lambda>hi.
                              Inr (to_number (int hi * 4294967296 + int lo)))))
                (\<lambda>timestampMs.
                   let payload = drop (1 + 4 + 8) buffer
                   in bindE (enqueue (player c) payload timestampMs) (\<lambda>pl.
                        let c1 = c\<lparr>player := pl\<rparr>
                        in Inr (if state c1 \<noteq> ''streaming''
                                then setState c1 ''streaming'' else c1))))))"

subsection \<open>\<^verbatim>\<open>MeshAudioPlayer.handleDecoded\<close> and \<^verbatim>\<open>reset\<close>\<close>

text \<open>
  \<open>currentTime\<close> is the reading of \<^verbatim>\<open>ctx.currentTime\<close> during the call. A decoded
  frame carries its timestamp in microseconds, a 64-bit integer that the code reads as a
  number. \<^verbatim>\<open>createBuffer\<close> throws \<^verbatim>\<open>NotSupportedError\<close> for a channel count, a
  length or a rate it does not support, and \<^verbatim>\<open>start\<close> throws \<^verbatim>\<open>RangeError\<close> for a
  negative time; the duration of the buffer is its length over its rate. Copying the
  samples into the buffer has no part in the schedule and is left out. The result is the
  player after the call and what became of the frame.
\<close>

record audioData =
  timestamp :: int
  numberOfChannels :: nat
  numberOfFrames :: nat
  sampleRate :: nat

datatype outcome = Dropped | Threw js_error | Started rat

text \<open>
  Lines 92 to 97: the timestamp as a number and, on the first frame of a stream, the base
  timestamp, the playout origin and the playhead.
\<close>

definition establishBase :: "player \<Rightarrow> rat \<Rightarrow> int \<Rightarrow> player" where
  "establishBase p currentTime timestampUs =
     (if baseTimestampUs p = None
      then p\<lparr>baseTimestampUs := Some (to_number timestampUs),
             playStart := fl (currentTime + jitterSec p),
             playHead := fl (currentTime + jitterSec p)\<rparr>
      else p)"

text \<open>Lines 112 and 113: \<^verbatim>\<open>relSeconds\<close> and \<^verbatim>\<open>targetTime\<close>.\<close>

definition targetTime :: "player \<Rightarrow> int \<Rightarrow> rat" where
  "targetTime p timestampUs =
     fl (playStart p +
         fl (fl (of_int (to_number timestampUs - the (baseTimestampUs p))) / 1000000))"

definition handleDecoded :: "player \<Rightarrow> rat \<Rightarrow> audioData \<Rightarrow> player \<times> outcome" where
  "handleDecoded p currentTime ad =
     (if \<not> ctxReady p then (p, Dropped)
      else
        let timestampUs = timestamp ad;
            p1 = establishBase p currentTime timestampUs
        in if numberOfChannels ad = 0 \<or> channelMax p < numberOfChannels ad \<or>
              numberOfFrames ad = 0 \<or> sampleRate ad = 0 \<or>
              sampleRate ad < rateMin p \<or> rateMax p < sampleRate ad
           then (p1, Threw NotSupportedError)
           else
             let duration = fl (of_nat (numberOfFrames ad) / of_nat (sampleRate ad));
                 startAt = max currentTime (max (playHead p1) (targetTime p1 timestampUs))
             in if startAt < 0 then (p1, Threw RangeError)
                else (p1\<lparr>playHead := fl (startAt + duration)\<rparr>, Started startAt))"

definition reset :: "player \<Rightarrow> rat \<Rightarrow> player" where
  "reset p currentTime =
     p\<lparr>playHead := (if ctxReady p then currentTime else 0),
       baseTimestampUs := None, playStart := 0\<rparr>"

text \<open>
  A streaming session: decoded frames handled one after the other, each with the clock
  reading of its call. \<open>playout\<close> lists, for every frame that was started, its start time
  and the playhead after it (the end of the frame).
\<close>

fun playout :: "player \<Rightarrow> (rat \<times> audioData) list \<Rightarrow> (rat \<times> rat) list" where
  "playout p [] = []"
| "playout p (e # es) =
     (case handleDecoded p (fst e) (snd e) of
        (p', Started s) \<Rightarrow> (s, playHead p') # playout p' es
      | (p', _) \<Rightarrow> playout p' es)"


text \<open>A decoded 20 ms frame (960 samples at 48 kHz, two channels) with timestamp \<open>us\<close>.\<close>

definition frame20 :: "int \<Rightarrow> audioData" where
  "frame20 us = \<lparr>timestamp = us, numberOfChannels = 2, numberOfFrames = 960, sampleRate = 48000\<rparr>"

text \<open>
  The playout origin for a first frame handled at clock \<open>c\<close> with the jitter budget of
  80 ms, and a time advanced by 20 ms, both as the code adds them.
\<close>

definition playoutOrigin :: "rat \<Rightarrow> rat" where
  "playoutOrigin c = fl (c + fl (2 / 25))"

definition plus20ms :: "rat \<Rightarrow> rat" where
  "plus20ms t = fl (t + fl (1 / 50))"

subsection \<open>The wire format, in the words of the specification\<close>

text \<open>
  A frame is a 13-byte header and a payload: byte 0 is the marker, bytes 1 to 4 the
  sequence number, bytes 5 to 12 the presentation timestamp in milliseconds, both
  little-endian, and the rest is the payload. \<open>as_signed64\<close> reads a 64-bit value as
  two's complement.
\<close>

definition wire_sequence :: "8 word list \<Rightarrow> nat" where
  "wire_sequence b = (\<Sum>i<4. unat (b ! (1 + i)) * 256 ^ i)"

definition wire_timestamp :: "8 word list \<Rightarrow> nat" where
  "wire_timestamp b = (\<Sum>i<8. unat (b ! (5 + i)) * 256 ^ i)"

definition wire_payload :: "8 word list \<Rightarrow> 8 word list" where
  "wire_payload b = drop 13 b"

definition as_signed64 :: "nat \<Rightarrow> int" where
  "as_signed64 u = (if int u < 2 ^ 63 then int u else int u - 2 ^ 64)"

section \<open>Conditions and runs used in the statements\<close>

subsection \<open>Conditions of the sweep and of session validation\<close>

text \<open>
  \<open>pairing_expired st now d\<close>: the session that device \<open>d\<close> is paired with is in the
  store and has \<^verbatim>\<open>expiresAt < now\<close>. \<open>session_expired st now sid\<close>: session \<open>sid\<close> is
  in the store with \<^verbatim>\<open>expiresAt < now\<close>. \<open>session_rejected st sid tok now\<close>: the
  session is unknown, or the token differs from the stored one, or \<^verbatim>\<open>expiresAt < now\<close>.
\<close>

definition pairing_expired :: "broker \<Rightarrow> int \<Rightarrow> string \<Rightarrow> bool" where
  "pairing_expired st now d =
     (\<exists>e \<in> set (sessions st). expiresAt (snd e) < now \<and> deviceId (snd e) = d \<and>
        activeSessionByDevice st d = Some (fst e))"

definition session_expired :: "broker \<Rightarrow> int \<Rightarrow> string \<Rightarrow> bool" where
  "session_expired st now sid =
     (\<exists>e \<in> set (sessions st). fst e = sid \<and> expiresAt (snd e) < now)"

definition session_rejected :: "broker \<Rightarrow> string option \<Rightarrow> string option \<Rightarrow> int \<Rightarrow> bool" where
  "session_rejected st sid tok now =
     (case sid of
        None \<Rightarrow> True
      | Some s \<Rightarrow>
          s = [] \<or>
          (case map_of (sessions st) s of
             None \<Rightarrow> True
           | Some sess \<Rightarrow> tok \<noteq> Some (token sess) \<or> expiresAt sess < now))"

subsection \<open>Runs of the broker and of the client\<close>

text \<open>
  A broker with secret \<open>k\<close>, a token lifetime of five minutes and one listener per device.
  At time 0 two tokens are issued for device \<open>d1\<close>: sessions \<open>s1\<close> and \<open>s2\<close>, both
  expiring at 300000. In \<open>scn_online\<close> the device then connects on device socket 10.
  \<open>scn_viewers st\<close> connects two viewers at time 10: socket 20 with \<open>s1\<close>, socket 21 with
  \<open>s2\<close>. \<open>scn_paired st\<close> is the state after the first viewer has sent \<^verbatim>\<open>start\<close>.
\<close>

definition state_of :: "js_error + broker \<Rightarrow> broker \<Rightarrow> broker" where
  "state_of r dflt = (case r of Inr s \<Rightarrow> s | Inl _ \<Rightarrow> dflt)"

definition scn_tokens :: broker where
  "scn_tokens =
     snd (postToken
       (snd (postToken (createMeshAudioPlugin ''k'' 300000 True 1)
               False (Some ''d1'') ''s1'' ''t1'' ''anonymous'' 0))
       False (Some ''d1'') ''s2'' ''t2'' ''anonymous'' 0)"

definition scn_online :: broker where
  "scn_online = onAgentConnected scn_tokens 10 (Some ''d1'') (Some ''k'')"

definition scn_viewers :: "broker \<Rightarrow> broker" where
  "scn_viewers st =
     onViewerConnected (onViewerConnected st 20 (Some ''s1'') (Some ''t1'') 10)
       21 (Some ''s2'') (Some ''t2'') 10"

definition start_wss :: json where
  "start_wss = JObj [(''action'', JStr ''start''), (''mode'', JStr ''wss'')]"

definition scn_paired :: "broker \<Rightarrow> broker" where
  "scn_paired st =
     state_of (viewer_on_message (scn_viewers st) 20 ''s1'' ''d1'' (Some start_wss)) st"


text \<open>
  A client whose player is initialised, and a frame with sequence number 5, timestamp
  10000 ms and a payload of two bytes.
\<close>

definition scn_client :: client where
  "scn_client =
     \<lparr>state = ''starting'', player = init (MeshAudioPlayer 3000 768000 32),
      hasGetBigInt64 = True, onStatus = True, statusCalls = [''starting'']\<rparr>"

definition scn_frame :: "8 word list" where
  "scn_frame = [1, 5, 0, 0, 0, 16, 39, 0, 0, 0, 0, 0, 0, 170, 187]"

section \<open>Properties of the relay broker\<close>

subsection \<open>Socket writes, written out\<close>

lemma viewer_send_open:
  "readyState (viewerSockets st ws) = OPEN \<Longrightarrow>
   on_viewer_ws ws (ws_send f) st =
     st\<lparr>viewerSockets := (viewerSockets st)
           (ws := (viewerSockets st ws)\<lparr>sent := sent (viewerSockets st ws) @ [f]\<rparr>)\<rparr>"
  by (simp add: on_viewer_ws_def ws_send_def)

lemma viewer_close_open:
  "readyState (viewerSockets st ws) = OPEN \<Longrightarrow>
   on_viewer_ws ws (ws_close code reason) st =
     st\<lparr>viewerSockets := (viewerSockets st)
           (ws := (viewerSockets st ws)
              \<lparr>readyState := CLOSING,
               sent := sent (viewerSockets st ws) @ [CloseFrame code reason]\<rparr>)\<rparr>"
  by (simp add: on_viewer_ws_def ws_close_def)

lemma ws_close_idem: "ws_close c r (ws_close c r s) = ws_close c r s"
  by (simp add: ws_close_def)

lemma js_get_not_null: "js_get msg k = Some v \<Longrightarrow> msg \<noteq> JNull"
  by auto

subsection \<open>Facts about the runs\<close>

lemmas scn_defs =
  scn_tokens_def scn_online_def scn_viewers_def scn_paired_def state_of_def start_wss_def
  postToken_def createMeshAudioPlugin_def onAgentConnected_def onViewerConnected_def
  attachHeartbeat_def on_agent_ws_def on_viewer_ws_def ws_send_def ws_close_def
  ws_terminate_def new_socket_def viewer_on_message_def sendToAgent_def Let_def

lemma scn_tokens_sessions:
  "sessions scn_tokens =
     [(''s1'', \<lparr>deviceId = ''d1'', token = ''t1'', userId = ''anonymous'', expiresAt = 300000\<rparr>),
      (''s2'', \<lparr>deviceId = ''d1'', token = ''t2'', userId = ''anonymous'', expiresAt = 300000\<rparr>)]"
  by (simp add: scn_defs)

lemma scn_tokens_tables:
  "agents scn_tokens = Map.empty" "viewers scn_tokens = Map.empty"
  "activeSessionByDevice scn_tokens = Map.empty"
  "viewerSockets scn_tokens = (\<lambda>_. new_socket)" "agentSockets scn_tokens = (\<lambda>_. new_socket)"
  "maxListenersPerDevice scn_tokens = 1" "agentSecret scn_tokens = ''k''"
  by (simp_all add: scn_defs)

lemma scn_online_tables:
  "agents scn_online = [''d1'' \<mapsto> 10]" "viewers scn_online = Map.empty"
  "activeSessionByDevice scn_online = Map.empty"
  "readyState (agentSockets scn_online 10) = OPEN" "sent (agentSockets scn_online 10) = []"
  "agentSecret scn_online = ''k''"
  by (simp_all add: scn_defs)

lemma scn_viewers_offline:
  "agents (scn_viewers scn_tokens) = Map.empty"
  "viewers (scn_viewers scn_tokens) = [''s1'' \<mapsto> 20, ''s2'' \<mapsto> 21]"
  "activeSessionByDevice (scn_viewers scn_tokens) = Map.empty"
  "readyState (viewerSockets (scn_viewers scn_tokens) 20) = OPEN"
  "sent (viewerSockets (scn_viewers scn_tokens) 20) =
     [Text (viewer_connected_msg ''d1'' ''s1'' False)]"
  by (simp_all add: scn_defs)

lemma scn_paired_online:
  "agents (scn_paired scn_online) = [''d1'' \<mapsto> 10]"
  "viewers (scn_paired scn_online) = [''s1'' \<mapsto> 20, ''s2'' \<mapsto> 21]"
  "activeSessionByDevice (scn_paired scn_online) = [''d1'' \<mapsto> ''s1'']"
  "maxListenersPerDevice (scn_paired scn_online) = 1"
  "sessions (scn_paired scn_online) = sessions scn_tokens"
  by (simp_all add: scn_defs)

lemma scn_paired_online_sockets:
  "agentSockets (scn_paired scn_online) 10 =
     \<lparr>readyState = OPEN, isAlive = True,
      sent = [Text (start_msg ''s1'' (JStr ''wss''))]\<rparr>"
  "viewerSockets (scn_paired scn_online) 20 =
     \<lparr>readyState = OPEN, isAlive = True,
      sent = [Text (viewer_connected_msg ''d1'' ''s1'' True)]\<rparr>"
  "viewerSockets (scn_paired scn_online) 21 =
     \<lparr>readyState = OPEN, isAlive = True,
      sent = [Text (viewer_connected_msg ''d1'' ''s2'' True)]\<rparr>"
  by (simp_all add: scn_defs)

lemma scn_paired_offline:
  "agents (scn_paired scn_tokens) = Map.empty"
  "viewers (scn_paired scn_tokens) = [''s1'' \<mapsto> 20, ''s2'' \<mapsto> 21]"
  "activeSessionByDevice (scn_paired scn_tokens) = [''d1'' \<mapsto> ''s1'']"
  "sessions (scn_paired scn_tokens) = sessions scn_tokens"
  "agentSockets (scn_paired scn_tokens) = (\<lambda>_. new_socket)"
  by (simp_all add: scn_defs)

lemma scn_paired_offline_sockets:
  "viewerSockets (scn_paired scn_tokens) 20 =
     \<lparr>readyState = OPEN, isAlive = True,
      sent = [Text (viewer_connected_msg ''d1'' ''s1'' False),
              Text (error_msg ''agent not connected'')]\<rparr>"
  "viewerSockets (scn_paired scn_tokens) 21 =
     \<lparr>readyState = OPEN, isAlive = True,
      sent = [Text (viewer_connected_msg ''d1'' ''s2'' False)]\<rparr>"
  by (simp_all add: scn_defs)

subsection \<open>A second listener is turned away\<close>



subsection \<open>Takeover of a device identifier\<close>

text \<open>
  Claim C2. A device identifier \<open>d\<close> is registered with socket \<open>w1\<close> and a second
  connection \<open>w2\<close> authenticates with the same identifier. The handler terminates \<open>w1\<close>
  and registers \<open>w2\<close>. The \<^verbatim>\<open>'close'\<close> listener that was attached to \<open>w1\<close> runs when
  the event arrives, and it deletes the entry of \<open>d\<close> whatever socket the entry holds:
  after it, \<open>d\<close> has no registered connection although \<open>w2\<close> is open.
\<close>

theorem takeover_undone_by_close:
  assumes "agents st d = Some w1" and "w1 \<noteq> w2" and "d \<noteq> []"
    and "agentSecret st = [] \<or> tok = Some (agentSecret st)"
    and "readyState (agentSockets st w1) = OPEN"
    and "readyState (agentSockets st w2) = OPEN"
  shows "agents (onAgentConnected st w2 (Some d) tok) d = Some w2
       \<and> readyState (agentSockets (onAgentConnected st w2 (Some d) tok) w1) = CLOSING
       \<and> agents (agent_on_close (onAgentConnected st w2 (Some d) tok) w1 d) d = None
       \<and> readyState (agentSockets (agent_on_close (onAgentConnected st w2 (Some d) tok) w1 d) w2)
           = OPEN"
  using assms
  by (auto simp add: onAgentConnected_def agent_on_close_def attachHeartbeat_def
      on_agent_ws_def on_viewer_ws_def ws_terminate_def ws_closed_def Let_def
      split: option.splits)

theorem takeover_undone_by_close_witness:
  "agents (onAgentConnected scn_online 11 (Some ''d1'') (Some ''k'')) ''d1'' = Some 11
   \<and> agents (agent_on_close (onAgentConnected scn_online 11 (Some ''d1'') (Some ''k'')) 10 ''d1'')
        ''d1'' = None
   \<and> readyState (agentSockets
        (agent_on_close (onAgentConnected scn_online 11 (Some ''d1'') (Some ''k'')) 10 ''d1'') 11)
        = OPEN"
proof -
  have 1: "agents scn_online ''d1'' = Some 10"
    by (simp add: scn_online_tables)
  have 2: "agentSecret scn_online = [] \<or> Some ''k'' = Some (agentSecret scn_online)"
    by (simp add: scn_online_tables)
  have 3: "readyState (agentSockets scn_online 10) = OPEN"
    by (simp add: scn_online_tables)
  have 4: "readyState (agentSockets scn_online 11) = OPEN"
    by (simp add: scn_defs)
  show ?thesis
    using takeover_undone_by_close [OF 1 _ _ 2 3 4] by simp
qed

subsection \<open>Forwarding of binary frames\<close>

text \<open>
  Claim C3. A binary frame from the connection of device \<open>d\<close> is forwarded exactly when
  \<open>d\<close> has a pairing, the paired session has a registered viewer whose socket is open, and
  the first byte of the frame is 1. The viewer then gets the frame as it came, byte for byte,
  and nothing else in the broker changes; in every other case the state is unchanged.
\<close>

theorem forwardAudio_iff:
  assumes "activeSessionByDevice st d \<noteq> Some []"
  shows "(\<forall>sid v rest.
            activeSessionByDevice st d = Some sid \<and> viewers st sid = Some v \<and>
            readyState (viewerSockets st v) = OPEN \<and> data = 1 # rest \<longrightarrow>
            agent_on_message st d (BinaryMsg data) =
              st\<lparr>viewerSockets := (viewerSockets st)
                    (v := (viewerSockets st v)
                       \<lparr>sent := sent (viewerSockets st v) @ [Binary data]\<rparr>)\<rparr>)
       \<and> ((\<nexists>sid v. activeSessionByDevice st d = Some sid \<and> viewers st sid = Some v \<and>
               readyState (viewerSockets st v) = OPEN) \<or> (\<nexists>rest. data = 1 # rest) \<longrightarrow>
            agent_on_message st d (BinaryMsg data) = st)"
proof (intro conjI allI impI)
  fix sid v rest
  assume a: "activeSessionByDevice st d = Some sid \<and> viewers st sid = Some v \<and>
            readyState (viewerSockets st v) = OPEN \<and> data = 1 # rest"
  with assms have "sid \<noteq> []" by auto
  with a show "agent_on_message st d (BinaryMsg data) =
              st\<lparr>viewerSockets := (viewerSockets st)
                    (v := (viewerSockets st v)
                       \<lparr>sent := sent (viewerSockets st v) @ [Binary data]\<rparr>)\<rparr>"
    by (simp add: forwardAudio_def viewer_send_open)
next
  assume "(\<nexists>sid v. activeSessionByDevice st d = Some sid \<and> viewers st sid = Some v \<and>
               readyState (viewerSockets st v) = OPEN) \<or> (\<nexists>rest. data = 1 # rest)"
  then show "agent_on_message st d (BinaryMsg data) = st"
  proof
    assume n: "\<nexists>sid v. activeSessionByDevice st d = Some sid \<and> viewers st sid = Some v \<and>
               readyState (viewerSockets st v) = OPEN"
    show ?thesis
    proof (cases "activeSessionByDevice st d")
      case None
      then show ?thesis by (simp add: forwardAudio_def)
    next
      case (Some sid)
      with n show ?thesis
        by (cases "viewers st sid") (simp_all add: forwardAudio_def)
    qed
  next
    assume "\<nexists>rest. data = 1 # rest"
    then have "length data < 1 \<or> data ! 0 \<noteq> 1"
      by (cases data) simp_all
    then show ?thesis by (auto simp add: forwardAudio_def)
  qed
qed

theorem forwardAudio_iff_witness:
  "agent_on_message (scn_paired scn_online) ''d1'' (BinaryMsg [1, 7, 9]) =
     (scn_paired scn_online)\<lparr>viewerSockets := (viewerSockets (scn_paired scn_online))
        (20 := \<lparr>readyState = OPEN, isAlive = True,
               sent = [Text (viewer_connected_msg ''d1'' ''s1'' True), Binary [1, 7, 9]]\<rparr>)\<rparr>
   \<and> agent_on_message (scn_paired scn_online) ''d1'' (BinaryMsg [2, 7, 9]) =
       scn_paired scn_online"
proof -
  have 1: "activeSessionByDevice (scn_paired scn_online) ''d1'' \<noteq> Some []"
    by (simp add: scn_paired_online)
  have 2: "activeSessionByDevice (scn_paired scn_online) ''d1'' = Some ''s1''"
    "viewers (scn_paired scn_online) ''s1'' = Some 20"
    "readyState (viewerSockets (scn_paired scn_online) 20) = OPEN"
    by (simp_all add: scn_paired_online scn_paired_online_sockets)
  have 3: "\<nexists>rest. [2, 7, 9] = (1 :: 8 word) # rest"
    by simp
  from forwardAudio_iff [OF 1, of "[1, 7, 9]"] 2
  have a: "agent_on_message (scn_paired scn_online) ''d1'' (BinaryMsg [1, 7, 9]) =
     (scn_paired scn_online)\<lparr>viewerSockets := (viewerSockets (scn_paired scn_online))
        (20 := (viewerSockets (scn_paired scn_online) 20)
            \<lparr>sent := sent (viewerSockets (scn_paired scn_online) 20) @ [Binary [1, 7, 9]]\<rparr>)\<rparr>"
    by blast
  from forwardAudio_iff [OF 1, of "[2, 7, 9]"] 3
  have b: "agent_on_message (scn_paired scn_online) ''d1'' (BinaryMsg [2, 7, 9]) =
       scn_paired scn_online"
    by blast
  from a b show ?thesis
    by (simp add: scn_paired_online_sockets)
qed

subsection \<open>Validation of a viewer connection\<close>

text \<open>
  Claim C4, as the code has it. A viewer connection on an open socket is closed with code
  1008 and reason \<^verbatim>\<open>invalid session\<close>, and nothing is registered, when the session is
  unknown, the token differs from the stored token, or \<^verbatim>\<open>expiresAt < now\<close>. In every
  other case, the instant \<^verbatim>\<open>now = expiresAt\<close> included, the viewer is registered under its
  session, the socket stays open and gets the \<^verbatim>\<open>viewer_connected\<close> message.
\<close>

theorem viewer_validation:
  assumes "readyState (viewerSockets st ws) = OPEN"
  shows "(session_rejected st sid tok now \<longrightarrow>
            onViewerConnected st ws sid tok now =
              st\<lparr>viewerSockets := (viewerSockets st)
                    (ws := (viewerSockets st ws)
                       \<lparr>readyState := CLOSING,
                        sent := sent (viewerSockets st ws) @
                                  [CloseFrame 1008 ''invalid session'']\<rparr>)\<rparr>)
       \<and> (\<not> session_rejected st sid tok now \<longrightarrow>
            (\<exists>s sess. sid = Some s \<and> map_of (sessions st) s = Some sess \<and>
               viewers (onViewerConnected st ws sid tok now) = (viewers st)(s \<mapsto> ws) \<and>
               viewerSockets (onViewerConnected st ws sid tok now) ws =
                 (viewerSockets st ws)
                   \<lparr>isAlive := True,
                    sent := sent (viewerSockets st ws) @
                      [Text (viewer_connected_msg (deviceId sess) s
                               (agents st (deviceId sess) \<noteq> None))]\<rparr>))"
proof (intro conjI impI)
  assume "session_rejected st sid tok now"
  then show "onViewerConnected st ws sid tok now =
              st\<lparr>viewerSockets := (viewerSockets st)
                    (ws := (viewerSockets st ws)
                       \<lparr>readyState := CLOSING,
                        sent := sent (viewerSockets st ws) @
                                  [CloseFrame 1008 ''invalid session'']\<rparr>)\<rparr>"
    using assms
    by (auto simp add: session_rejected_def onViewerConnected_def viewer_close_open
        split: option.splits)
next
  assume n: "\<not> session_rejected st sid tok now"
  then obtain s sess where s: "sid = Some s" "s \<noteq> []" "map_of (sessions st) s = Some sess"
    "tok = Some (token sess)" "\<not> expiresAt sess < now"
    by (auto simp add: session_rejected_def split: option.splits)
  have "viewers (onViewerConnected st ws sid tok now) = (viewers st)(s \<mapsto> ws)"
    using s by (simp add: onViewerConnected_def Let_def attachHeartbeat_def on_viewer_ws_def)
  moreover have "viewerSockets (onViewerConnected st ws sid tok now) ws =
                 (viewerSockets st ws)
                   \<lparr>isAlive := True,
                    sent := sent (viewerSockets st ws) @
                      [Text (viewer_connected_msg (deviceId sess) s
                               (agents st (deviceId sess) \<noteq> None))]\<rparr>"
    using s assms
    by (simp add: onViewerConnected_def Let_def attachHeartbeat_def on_viewer_ws_def ws_send_def)
  ultimately show "\<exists>s sess. sid = Some s \<and> map_of (sessions st) s = Some sess \<and>
               viewers (onViewerConnected st ws sid tok now) = (viewers st)(s \<mapsto> ws) \<and>
               viewerSockets (onViewerConnected st ws sid tok now) ws =
                 (viewerSockets st ws)
                   \<lparr>isAlive := True,
                    sent := sent (viewerSockets st ws) @
                      [Text (viewer_connected_msg (deviceId sess) s
                               (agents st (deviceId sess) \<noteq> None))]\<rparr>"
    using s by blast
qed

theorem viewer_validation_witness:
  "readyState (viewerSockets (onViewerConnected scn_tokens 20 (Some ''s1'') (Some ''t1'') 300001)
     20) = CLOSING
   \<and> viewers (onViewerConnected scn_tokens 20 (Some ''s1'') (Some ''t1'') 300001) = Map.empty
   \<and> viewers (onViewerConnected scn_tokens 20 (Some ''s1'') (Some ''t1'') 299999) ''s1''
       = Some 20"
proof -
  have o: "readyState (viewerSockets scn_tokens 20) = OPEN"
    by (simp add: scn_tokens_tables new_socket_def)
  have r: "session_rejected scn_tokens (Some ''s1'') (Some ''t1'') 300001"
    by (simp add: session_rejected_def scn_tokens_sessions)
  have a: "\<not> session_rejected scn_tokens (Some ''s1'') (Some ''t1'') 299999"
    by (simp add: session_rejected_def scn_tokens_sessions)
  from viewer_validation [OF o, of "Some ''s1''" "Some ''t1''" 300001] r
  have 1: "onViewerConnected scn_tokens 20 (Some ''s1'') (Some ''t1'') 300001 =
              scn_tokens\<lparr>viewerSockets := (viewerSockets scn_tokens)
                    (20 := (viewerSockets scn_tokens 20)
                       \<lparr>readyState := CLOSING,
                        sent := sent (viewerSockets scn_tokens 20) @
                                  [CloseFrame 1008 ''invalid session'']\<rparr>)\<rparr>"
    by blast
  from viewer_validation [OF o, of "Some ''s1''" "Some ''t1''" 299999] a
  have 2: "viewers (onViewerConnected scn_tokens 20 (Some ''s1'') (Some ''t1'') 299999) =
             (viewers scn_tokens)(''s1'' \<mapsto> 20)"
    by auto
  show ?thesis
    by (simp add: 1 2 scn_tokens_tables)
qed

text \<open>
  At \<^verbatim>\<open>now = expiresAt\<close> the comparison \<^verbatim>\<open>session.expiresAt < Date.now()\<close> is false:
  session \<open>s1\<close> expires at 300000, and a connection at 300000 with the right token is
  accepted.
\<close>

theorem viewer_accepted_at_expiry:
  "map_of (sessions scn_tokens) ''s1'' =
     Some \<lparr>deviceId = ''d1'', token = ''t1'', userId = ''anonymous'', expiresAt = 300000\<rparr>
   \<and> (300000 :: int) \<ge> 300000
   \<and> viewers (onViewerConnected scn_tokens 20 (Some ''s1'') (Some ''t1'') 300000) ''s1''
       = Some 20
   \<and> viewerSockets (onViewerConnected scn_tokens 20 (Some ''s1'') (Some ''t1'') 300000) 20
       = \<lparr>readyState = OPEN, isAlive = True,
          sent = [Text (viewer_connected_msg ''d1'' ''s1'' False)]\<rparr>"
  by (simp add: scn_defs)

subsection \<open>A start request for a device that is not connected\<close>

text \<open>
  Claim C6. Device \<open>d\<close> has no registered connection and no pairing, and a viewer on an
  open socket sends \<^verbatim>\<open>start\<close>. The viewer gets the error \<^verbatim>\<open>agent not connected\<close> and
  its socket stays open. The handler has stored the pairing before it tried to reach the
  device and does not take it back: after the failed request \<open>d\<close> is paired with the
  requester's session.
\<close>

theorem start_offline_keeps_pairing:
  assumes "agents st d = None" and "activeSessionByDevice st d = None"
    and "readyState (viewerSockets st ws) = OPEN"
    and "js_get msg ''action'' = Some (JStr ''start'')"
  shows "\<exists>st'. viewer_on_message st ws sid d (Some msg) = Inr st'
       \<and> viewerSockets st' ws =
           (viewerSockets st ws)
             \<lparr>sent := sent (viewerSockets st ws) @ [Text (error_msg ''agent not connected'')]\<rparr>
       \<and> readyState (viewerSockets st' ws) = OPEN
       \<and> agentSockets st' = agentSockets st
       \<and> activeSessionByDevice st' d = Some sid"
proof -
  from assms(4) have "msg \<noteq> JNull" by (rule js_get_not_null)
  with assms show ?thesis
    by (cases msg)
      (simp_all add: viewer_on_message_def sendToAgent_def on_viewer_ws_def ws_send_def Let_def)
qed

theorem start_offline_keeps_pairing_witness:
  "\<exists>st'. viewer_on_message (scn_viewers scn_tokens) 20 ''s1'' ''d1'' (Some start_wss) = Inr st'
     \<and> sent (viewerSockets st' 20) =
         [Text (viewer_connected_msg ''d1'' ''s1'' False),
          Text (error_msg ''agent not connected'')]
     \<and> readyState (viewerSockets st' 20) = OPEN
     \<and> activeSessionByDevice st' ''d1'' = Some ''s1''"
proof -
  have 1: "agents (scn_viewers scn_tokens) ''d1'' = None"
    "activeSessionByDevice (scn_viewers scn_tokens) ''d1'' = None"
    by (simp_all add: scn_viewers_offline)
  have 2: "readyState (viewerSockets (scn_viewers scn_tokens) 20) = OPEN"
    by (simp add: scn_viewers_offline)
  have 3: "js_get start_wss ''action'' = Some (JStr ''start'')"
    by (simp add: start_wss_def)
  from start_offline_keeps_pairing [OF 1 2 3, of "''s1''"]
  show ?thesis
    by (auto simp add: scn_viewers_offline)
qed

subsection \<open>A stop request from a viewer that is not the paired one\<close>

text \<open>
  Claim C10, as the code has it. Device \<open>d\<close> is paired with session \<open>s1\<close> and a viewer
  with another session \<open>s2\<close> for \<open>d\<close> sends \<^verbatim>\<open>stop\<close>. The handler does not look at
  the sender's session: it removes the pairing of \<open>d\<close>. The \<^verbatim>\<open>stop\<close> instruction goes
  to the device when \<open>d\<close> has a registered connection whose socket is open; otherwise
  nothing is written to any device socket. Viewer sockets are untouched.
\<close>

theorem stop_by_any_viewer:
  assumes "activeSessionByDevice st d = Some s1" and "s1 \<noteq> s2"
    and "js_get msg ''action'' = Some (JStr ''stop'')"
  shows "\<exists>st'. viewer_on_message st ws s2 d (Some msg) = Inr st'
       \<and> activeSessionByDevice st' = (activeSessionByDevice st)(d := None)
       \<and> agentSockets st' =
           (case agents st d of
              None \<Rightarrow> agentSockets st
            | Some a \<Rightarrow>
                if readyState (agentSockets st a) = OPEN
                then (agentSockets st)
                       (a := (agentSockets st a)
                          \<lparr>sent := sent (agentSockets st a) @ [Text stop_msg]\<rparr>)
                else agentSockets st)
       \<and> viewerSockets st' = viewerSockets st
       \<and> agents st' = agents st \<and> viewers st' = viewers st \<and> sessions st' = sessions st"
proof -
  from assms(3) have "msg \<noteq> JNull" by (rule js_get_not_null)
  with assms(3) show ?thesis
    by (cases msg)
      (simp_all add: viewer_on_message_def sendToAgent_def on_agent_ws_def ws_send_def
        split: option.splits)
qed

theorem stop_by_any_viewer_witness:
  "\<exists>st'. viewer_on_message (scn_paired scn_online) 21 ''s2'' ''d1''
            (Some (JObj [(''action'', JStr ''stop'')])) = Inr st'
     \<and> activeSessionByDevice st' ''d1'' = None
     \<and> sent (agentSockets st' 10) =
         [Text (start_msg ''s1'' (JStr ''wss'')), Text stop_msg]"
proof -
  have 1: "activeSessionByDevice (scn_paired scn_online) ''d1'' = Some ''s1''"
    by (simp add: scn_paired_online)
  have 2: "''s1'' \<noteq> ''s2''"
    by simp
  have 3: "js_get (JObj [(''action'', JStr ''stop'')]) ''action'' = Some (JStr ''stop'')"
    by simp
  from stop_by_any_viewer [OF 1 2 3, of 21]
  show ?thesis
    by (auto simp add: scn_paired_online scn_paired_online_sockets)
qed

text \<open>
  Device \<open>d1\<close> is paired with \<open>s1\<close> but has no connection (the pairing was stored by a
  \<^verbatim>\<open>start\<close> that found the device absent). The viewer of \<open>s2\<close> sends \<^verbatim>\<open>stop\<close>: the
  pairing is removed and no device socket receives anything.
\<close>

theorem stop_offline_no_instruction:
  "activeSessionByDevice (scn_paired scn_tokens) ''d1'' = Some ''s1''
   \<and> agents (scn_paired scn_tokens) ''d1'' = None
   \<and> activeSessionByDevice
        (state_of (viewer_on_message (scn_paired scn_tokens) 21 ''s2'' ''d1''
           (Some (JObj [(''action'', JStr ''stop'')]))) (scn_paired scn_tokens)) ''d1'' = None
   \<and> agentSockets
        (state_of (viewer_on_message (scn_paired scn_tokens) 21 ''s2'' ''d1''
           (Some (JObj [(''action'', JStr ''stop'')]))) (scn_paired scn_tokens))
       = agentSockets (scn_paired scn_tokens)"
  by (simp add: scn_paired_offline viewer_on_message_def sendToAgent_def state_of_def)

subsection \<open>The expiry sweep\<close>

text \<open>One visit of the sweep, table by table.\<close>

lemma sweep_step_sessions:
  "sessions (sweep_step now st e) =
     (if expiresAt (snd e) < now then AList.delete (fst e) (sessions st) else sessions st)"
  by (simp add: sweep_step_def Let_def sendToAgent_def on_viewer_ws_def on_agent_ws_def
      split: option.splits)

lemma sweep_step_agents: "agents (sweep_step now st e) = agents st"
  by (simp add: sweep_step_def Let_def sendToAgent_def on_viewer_ws_def on_agent_ws_def
      split: option.splits)

lemma sweep_step_viewers: "viewers (sweep_step now st e) = viewers st"
  by (simp add: sweep_step_def Let_def sendToAgent_def on_viewer_ws_def on_agent_ws_def
      split: option.splits)

lemma sweep_step_active:
  "activeSessionByDevice (sweep_step now st e) =
     (if expiresAt (snd e) < now \<and> activeSessionByDevice st (deviceId (snd e)) = Some (fst e)
      then (activeSessionByDevice st)(deviceId (snd e) := None)
      else activeSessionByDevice st)"
  by (simp add: sweep_step_def Let_def sendToAgent_def on_viewer_ws_def on_agent_ws_def
      split: option.splits)

lemma sweep_step_agentSockets:
  "agentSockets (sweep_step now st e) =
     (if expiresAt (snd e) < now \<and> activeSessionByDevice st (deviceId (snd e)) = Some (fst e)
      then (case agents st (deviceId (snd e)) of
              None \<Rightarrow> agentSockets st
            | Some a \<Rightarrow> (agentSockets st)(a := ws_send (Text stop_msg) (agentSockets st a)))
      else agentSockets st)"
  by (auto simp add: sweep_step_def Let_def sendToAgent_def on_viewer_ws_def on_agent_ws_def
      ws_send_def fun_eq_iff split: option.splits)

lemma sweep_step_viewerSockets:
  "viewerSockets (sweep_step now st e) =
     (if expiresAt (snd e) < now
      then (case viewers st (fst e) of
              None \<Rightarrow> viewerSockets st
            | Some v \<Rightarrow> (viewerSockets st)
                          (v := ws_close 4000 ''session expired'' (viewerSockets st v)))
      else viewerSockets st)"
  by (simp add: sweep_step_def Let_def sendToAgent_def on_viewer_ws_def on_agent_ws_def
      split: option.splits)

lemma sweep_fold_agents: "agents (foldl (sweep_step now) st xs) = agents st"
  by (induction xs arbitrary: st) (simp_all add: sweep_step_agents)

lemma sweep_fold_viewers: "viewers (foldl (sweep_step now) st xs) = viewers st"
  by (induction xs arbitrary: st) (simp_all add: sweep_step_viewers)

lemma sweep_fold_sessions:
  "sessions (foldl (sweep_step now) st xs) =
     filter (\<lambda>e. \<not> (\<exists>x \<in> set xs. expiresAt (snd x) < now \<and> fst x = fst e)) (sessions st)"
proof (induction xs arbitrary: st)
  case Nil
  then show ?case by simp
next
  case (Cons x xs)
  show ?case
    by (auto simp add: Cons.IH sweep_step_sessions AList.delete_eq intro!: filter_cong)
qed

lemma sweep_fold_active:
  "activeSessionByDevice (foldl (sweep_step now) st xs) d =
     (if \<exists>e \<in> set xs. expiresAt (snd e) < now \<and> deviceId (snd e) = d \<and>
            activeSessionByDevice st d = Some (fst e)
      then None else activeSessionByDevice st d)"
proof (induction xs arbitrary: st)
  case Nil
  then show ?case by simp
next
  case (Cons x xs)
  show ?case
    by (auto simp add: Cons.IH sweep_step_active)
qed

lemma sweep_fold_agentSockets:
  assumes "agents st d = Some a"
    and "\<forall>d'. d' \<noteq> d \<longrightarrow> agents st d' \<noteq> Some a"
  shows "agentSockets (foldl (sweep_step now) st xs) a =
     (if \<exists>e \<in> set xs. expiresAt (snd e) < now \<and> deviceId (snd e) = d \<and>
            activeSessionByDevice st d = Some (fst e)
      then ws_send (Text stop_msg) (agentSockets st a) else agentSockets st a)"
  using assms
proof (induction xs arbitrary: st)
  case Nil
  then show ?case by simp
next
  case (Cons x xs)
  let ?st1 = "sweep_step now st x"
  let ?hit = "\<lambda>s e. expiresAt (snd e) < now \<and> deviceId (snd e) = d \<and>
            activeSessionByDevice s d = Some (fst e)"
  have a1: "agents ?st1 d = Some a" "\<forall>d'. d' \<noteq> d \<longrightarrow> agents ?st1 d' \<noteq> Some a"
    using Cons.prems by (simp_all add: sweep_step_agents)
  have ih: "agentSockets (foldl (sweep_step now) ?st1 xs) a =
     (if \<exists>e \<in> set xs. ?hit ?st1 e
      then ws_send (Text stop_msg) (agentSockets ?st1 a) else agentSockets ?st1 a)"
    by (rule Cons.IH [OF a1])
  have unfold: "agentSockets (foldl (sweep_step now) st (x # xs)) a =
            (if \<exists>e \<in> set xs. ?hit ?st1 e
             then ws_send (Text stop_msg) (agentSockets ?st1 a) else agentSockets ?st1 a)"
    using ih by simp
  show ?case
  proof (cases "expiresAt (snd x) < now \<and>
                activeSessionByDevice st (deviceId (snd x)) = Some (fst x)")
    case False
    then have e1: "activeSessionByDevice ?st1 = activeSessionByDevice st"
      and e2: "agentSockets ?st1 = agentSockets st"
      by (auto simp add: sweep_step_active sweep_step_agentSockets)
    from False have nx: "\<not> ?hit st x" by blast
    have cond: "(\<exists>e \<in> set xs. ?hit ?st1 e) = (\<exists>e \<in> set (x # xs). ?hit st e)"
      using nx by (simp add: e1) blast
    have "(if \<exists>e \<in> set xs. ?hit ?st1 e
           then ws_send (Text stop_msg) (agentSockets ?st1 a) else agentSockets ?st1 a) =
          (if \<exists>e \<in> set (x # xs). ?hit st e
           then ws_send (Text stop_msg) (agentSockets st a) else agentSockets st a)"
      by (simp only: cond e2)
    with unfold show ?thesis by (rule trans)
  next
    case trig: True
    show ?thesis
    proof (cases "deviceId (snd x) = d")
      case True
      with trig Cons.prems have e1: "activeSessionByDevice ?st1 d = None"
        and e2: "agentSockets ?st1 a = ws_send (Text stop_msg) (agentSockets st a)"
        by (simp_all add: sweep_step_active sweep_step_agentSockets)
      from trig True have hx: "?hit st x" by blast
      show ?thesis
        using hx by (simp add: ih e1 e2)
    next
      case False
      with Cons.prems have na: "agents st (deviceId (snd x)) \<noteq> Some a" by blast
      from trig False have e1: "activeSessionByDevice ?st1 d = activeSessionByDevice st d"
        by (simp add: sweep_step_active)
      from trig na have e2: "agentSockets ?st1 a = agentSockets st a"
        by (cases "agents st (deviceId (snd x))") (simp_all add: sweep_step_agentSockets)
      from False have nx: "\<not> ?hit st x" by blast
      have cond: "(\<exists>e \<in> set xs. ?hit ?st1 e) = (\<exists>e \<in> set (x # xs). ?hit st e)"
        using nx by (simp add: e1) blast
      have "(if \<exists>e \<in> set xs. ?hit ?st1 e
             then ws_send (Text stop_msg) (agentSockets ?st1 a) else agentSockets ?st1 a) =
            (if \<exists>e \<in> set (x # xs). ?hit st e
             then ws_send (Text stop_msg) (agentSockets st a) else agentSockets st a)"
        by (simp only: cond e2)
      with unfold show ?thesis by (rule trans)
    qed
  qed
qed

lemma sweep_fold_viewerSockets:
  assumes "viewers st sid = Some v"
    and "\<forall>s'. s' \<noteq> sid \<longrightarrow> viewers st s' \<noteq> Some v"
  shows "viewerSockets (foldl (sweep_step now) st xs) v =
     (if \<exists>e \<in> set xs. fst e = sid \<and> expiresAt (snd e) < now
      then ws_close 4000 ''session expired'' (viewerSockets st v) else viewerSockets st v)"
  using assms
proof (induction xs arbitrary: st)
  case Nil
  then show ?case by simp
next
  case (Cons x xs)
  let ?st1 = "sweep_step now st x"
  have a1: "viewers ?st1 sid = Some v" "\<forall>s'. s' \<noteq> sid \<longrightarrow> viewers ?st1 s' \<noteq> Some v"
    using Cons.prems by (simp_all add: sweep_step_viewers)
  note ih = Cons.IH [OF a1]
  show ?case
  proof (cases "fst x = sid \<and> expiresAt (snd x) < now")
    case True
    with Cons.prems
    have e: "viewerSockets ?st1 v = ws_close 4000 ''session expired'' (viewerSockets st v)"
      by (simp add: sweep_step_viewerSockets)
    show ?thesis
      using True by (simp add: ih e ws_close_idem)
  next
    case False
    have e: "viewerSockets ?st1 v = viewerSockets st v"
    proof (cases "expiresAt (snd x) < now")
      case exp: True
      with False have "fst x \<noteq> sid" by simp
      with Cons.prems have "viewers st (fst x) \<noteq> Some v" by blast
      with exp show ?thesis
        by (cases "viewers st (fst x)") (simp_all add: sweep_step_viewerSockets)
    next
      case False
      then show ?thesis by (simp add: sweep_step_viewerSockets)
    qed
    show ?thesis
      using False by (auto simp add: ih e)
  qed
qed

lemma filter_expired_distinct:
  assumes "distinct (map fst xs)"
  shows "filter (\<lambda>e. \<not> (\<exists>x \<in> set xs. expiresAt (snd x) < now \<and> fst x = fst e)) xs =
         filter (\<lambda>e. \<not> expiresAt (snd e) < now) xs"
proof (rule filter_cong [OF refl])
  fix e assume e: "e \<in> set xs"
  have "\<And>x. x \<in> set xs \<Longrightarrow> fst x = fst e \<Longrightarrow> x = e"
    using assms e by (metis eq_key_imp_eq_value prod.collapse)
  then show "(\<not> (\<exists>x \<in> set xs. expiresAt (snd x) < now \<and> fst x = fst e)) = (\<not> expiresAt (snd e) < now)"
    using e by auto
qed

lemma inj_on_dom_other:
  assumes "inj_on m (dom m)" and "m k = Some v"
  shows "\<forall>k'. k' \<noteq> k \<longrightarrow> m k' \<noteq> Some v"
proof (intro allI impI notI)
  fix k' assume "k' \<noteq> k" and "m k' = Some v"
  with assms(2) have "k \<in> dom m" "k' \<in> dom m" "m k = m k'" by auto
  with assms(1) have "k = k'" by (meson inj_onD)
  with \<open>k' \<noteq> k\<close> show False by simp
qed

lemma ws_send_written:
  "ws_send f s = (if readyState s = OPEN then s\<lparr>sent := sent s @ [f]\<rparr> else s)"
  by (simp add: ws_send_def)

text \<open>
  Claim C5, as the code has it. The tables are JavaScript maps: the keys of \<^verbatim>\<open>sessions\<close>
  are distinct, and no socket is registered under two keys. A sweep at time \<open>now\<close>
  \<^item> removes exactly the sessions with \<^verbatim>\<open>expiresAt < now\<close> and keeps the others in order;
  \<^item> removes the pairing of every device that is paired with a removed session and leaves
    every other pairing as it was;
  \<^item> writes exactly one \<^verbatim>\<open>stop\<close> to the connection of such a device when that
    connection is registered and open, and nothing to any other registered device socket;
  \<^item> closes the registered viewer socket of every removed session, when it is open, with
    one close frame of code 4000 and reason \<^verbatim>\<open>session expired\<close>, and leaves the other
    registered viewer sockets alone;
  \<^item> leaves both connection registries unchanged.
\<close>

theorem sweep_effect:
  assumes "distinct (map fst (sessions st))"
    and "inj_on (agents st) (dom (agents st))"
    and "inj_on (viewers st) (dom (viewers st))"
  shows "sessions (cleanupExpiredSessions st now) =
           filter (\<lambda>e. \<not> expiresAt (snd e) < now) (sessions st)
       \<and> (\<forall>d. activeSessionByDevice (cleanupExpiredSessions st now) d =
               (if pairing_expired st now d then None else activeSessionByDevice st d))
       \<and> (\<forall>d a. agents st d = Some a \<longrightarrow>
               agentSockets (cleanupExpiredSessions st now) a =
               (if pairing_expired st now d \<and> readyState (agentSockets st a) = OPEN
                then (agentSockets st a)\<lparr>sent := sent (agentSockets st a) @ [Text stop_msg]\<rparr>
                else agentSockets st a))
       \<and> (\<forall>sid v. viewers st sid = Some v \<longrightarrow>
               viewerSockets (cleanupExpiredSessions st now) v =
               (if session_expired st now sid \<and> readyState (viewerSockets st v) = OPEN
                then (viewerSockets st v)
                       \<lparr>readyState := CLOSING,
                        sent := sent (viewerSockets st v) @
                                  [CloseFrame 4000 ''session expired'']\<rparr>
                else viewerSockets st v))
       \<and> agents (cleanupExpiredSessions st now) = agents st
       \<and> viewers (cleanupExpiredSessions st now) = viewers st"
proof (intro conjI allI impI)
  show "sessions (cleanupExpiredSessions st now) =
           filter (\<lambda>e. \<not> expiresAt (snd e) < now) (sessions st)"
    unfolding cleanupExpiredSessions_def sweep_fold_sessions
    by (rule filter_expired_distinct [OF assms(1)])
next
  fix d
  show "activeSessionByDevice (cleanupExpiredSessions st now) d =
               (if pairing_expired st now d then None else activeSessionByDevice st d)"
    unfolding cleanupExpiredSessions_def pairing_expired_def
    by (rule sweep_fold_active)
next
  fix d a assume a: "agents st d = Some a"
  from inj_on_dom_other [OF assms(2) a]
  have "agentSockets (foldl (sweep_step now) st (sessions st)) a =
     (if \<exists>e \<in> set (sessions st). expiresAt (snd e) < now \<and> deviceId (snd e) = d \<and>
            activeSessionByDevice st d = Some (fst e)
      then ws_send (Text stop_msg) (agentSockets st a) else agentSockets st a)"
    by (rule sweep_fold_agentSockets [OF a])
  then show "agentSockets (cleanupExpiredSessions st now) a =
               (if pairing_expired st now d \<and> readyState (agentSockets st a) = OPEN
                then (agentSockets st a)\<lparr>sent := sent (agentSockets st a) @ [Text stop_msg]\<rparr>
                else agentSockets st a)"
    by (simp add: cleanupExpiredSessions_def pairing_expired_def ws_send_written)
next
  fix sid v assume v: "viewers st sid = Some v"
  from inj_on_dom_other [OF assms(3) v]
  have "viewerSockets (foldl (sweep_step now) st (sessions st)) v =
     (if \<exists>e \<in> set (sessions st). fst e = sid \<and> expiresAt (snd e) < now
      then ws_close 4000 ''session expired'' (viewerSockets st v) else viewerSockets st v)"
    by (rule sweep_fold_viewerSockets [OF v])
  then show "viewerSockets (cleanupExpiredSessions st now) v =
               (if session_expired st now sid \<and> readyState (viewerSockets st v) = OPEN
                then (viewerSockets st v)
                       \<lparr>readyState := CLOSING,
                        sent := sent (viewerSockets st v) @
                                  [CloseFrame 4000 ''session expired'']\<rparr>
                else viewerSockets st v)"
    by (simp add: cleanupExpiredSessions_def session_expired_def ws_close_def)
next
  show "agents (cleanupExpiredSessions st now) = agents st"
    by (simp add: cleanupExpiredSessions_def sweep_fold_agents)
next
  show "viewers (cleanupExpiredSessions st now) = viewers st"
    by (simp add: cleanupExpiredSessions_def sweep_fold_viewers)
qed

theorem sweep_effect_witness:
  "sessions (cleanupExpiredSessions (scn_paired scn_online) 400000) = []
   \<and> sessions (cleanupExpiredSessions (scn_paired scn_online) 300000) = sessions scn_tokens
   \<and> activeSessionByDevice (cleanupExpiredSessions (scn_paired scn_online) 400000) ''d1'' = None
   \<and> activeSessionByDevice (cleanupExpiredSessions (scn_paired scn_online) 300000) ''d1''
       = Some ''s1''
   \<and> agentSockets (cleanupExpiredSessions (scn_paired scn_online) 400000) 10 =
       \<lparr>readyState = OPEN, isAlive = True,
        sent = [Text (start_msg ''s1'' (JStr ''wss'')), Text stop_msg]\<rparr>
   \<and> viewerSockets (cleanupExpiredSessions (scn_paired scn_online) 400000) 20 =
       \<lparr>readyState = CLOSING, isAlive = True,
        sent = [Text (viewer_connected_msg ''d1'' ''s1'' True),
                CloseFrame 4000 ''session expired'']\<rparr>"
proof -
  have 1: "distinct (map fst (sessions (scn_paired scn_online)))"
    by (simp add: scn_paired_online scn_tokens_sessions)
  have 2: "inj_on (agents (scn_paired scn_online)) (dom (agents (scn_paired scn_online)))"
    by (simp add: scn_paired_online)
  have 3: "inj_on (viewers (scn_paired scn_online)) (dom (viewers (scn_paired scn_online)))"
    by (simp add: scn_paired_online)
  have p: "pairing_expired (scn_paired scn_online) 400000 ''d1''"
    "\<not> pairing_expired (scn_paired scn_online) 300000 ''d1''"
    "session_expired (scn_paired scn_online) 400000 ''s1''"
    by (simp_all add: pairing_expired_def session_expired_def scn_paired_online
        scn_tokens_sessions)
  have r: "agents (scn_paired scn_online) ''d1'' = Some 10"
    "viewers (scn_paired scn_online) ''s1'' = Some 20"
    by (simp_all add: scn_paired_online)
  note a = sweep_effect [OF 1 2 3, of 400000]
  note b = sweep_effect [OF 1 2 3, of 300000]
  from a have "sessions (cleanupExpiredSessions (scn_paired scn_online) 400000) = []"
    by (simp add: scn_paired_online scn_tokens_sessions)
  moreover from b
  have "sessions (cleanupExpiredSessions (scn_paired scn_online) 300000) = sessions scn_tokens"
    by (simp add: scn_paired_online scn_tokens_sessions)
  moreover from a p
  have "activeSessionByDevice (cleanupExpiredSessions (scn_paired scn_online) 400000) ''d1''
          = None"
    by simp
  moreover from b p
  have "activeSessionByDevice (cleanupExpiredSessions (scn_paired scn_online) 300000) ''d1''
          = Some ''s1''"
    by (simp add: scn_paired_online)
  moreover from a r(1) p
  have "agentSockets (cleanupExpiredSessions (scn_paired scn_online) 400000) 10 =
       \<lparr>readyState = OPEN, isAlive = True,
        sent = [Text (start_msg ''s1'' (JStr ''wss'')), Text stop_msg]\<rparr>"
    by (simp add: scn_paired_online_sockets)
  moreover from a r(2) p
  have "viewerSockets (cleanupExpiredSessions (scn_paired scn_online) 400000) 20 =
       \<lparr>readyState = CLOSING, isAlive = True,
        sent = [Text (viewer_connected_msg ''d1'' ''s1'' True),
                CloseFrame 4000 ''session expired'']\<rparr>"
    by (simp add: scn_paired_online_sockets)
  ultimately show ?thesis by blast
qed

text \<open>
  Device \<open>d1\<close> is paired with session \<open>s1\<close>, which expires at 300000, and has no
  connection. The sweep at 400000 removes the session and the pairing; no device socket
  receives a \<^verbatim>\<open>stop\<close>, since \<^verbatim>\<open>sendToAgent\<close> finds no connection for \<open>d1\<close>.
\<close>

theorem sweep_offline_no_stop:
  "activeSessionByDevice (scn_paired scn_tokens) ''d1'' = Some ''s1''
   \<and> map_of (sessions (scn_paired scn_tokens)) ''s1'' =
       Some \<lparr>deviceId = ''d1'', token = ''t1'', userId = ''anonymous'', expiresAt = 300000\<rparr>
   \<and> sessions (cleanupExpiredSessions (scn_paired scn_tokens) 400000) = []
   \<and> activeSessionByDevice (cleanupExpiredSessions (scn_paired scn_tokens) 400000) ''d1'' = None
   \<and> agents (cleanupExpiredSessions (scn_paired scn_tokens) 400000) ''d1'' = None
   \<and> agentSockets (cleanupExpiredSessions (scn_paired scn_tokens) 400000) =
       agentSockets (scn_paired scn_tokens)"
  by (simp add: cleanupExpiredSessions_def sweep_step_def sendToAgent_def on_viewer_ws_def
      scn_paired_offline scn_tokens_sessions)

subsection \<open>What the tables always satisfy\<close>

text \<open>
  The hypotheses used above hold in every state the broker reaches. The pairing table
  never holds an empty session identifier: only the \<^verbatim>\<open>start\<close> branch writes to it, with
  the identifier of a viewer that passed validation, and validation refuses an empty one.
  The keys of \<^verbatim>\<open>sessions\<close> stay distinct, and a socket that is registered on its
  \<^verbatim>\<open>'connection'\<close> event, before it is in the registry, keeps the registry one-to-one.
\<close>

lemma accepted_session_nonempty:
  "\<not> session_rejected st (Some s) tok now \<Longrightarrow> s \<noteq> []"
  by (auto simp add: session_rejected_def)

lemma viewer_on_message_pairing_nonempty:
  assumes "viewer_on_message st ws sid d parsed = Inr st'" and "sid \<noteq> []"
    and "\<forall>x. activeSessionByDevice st x \<noteq> Some []"
  shows "\<forall>x. activeSessionByDevice st' x \<noteq> Some []"
proof (cases parsed)
  case None
  with assms show ?thesis by (simp add: viewer_on_message_def)
next
  case (Some msg)
  with assms show ?thesis
    by (cases msg)
      (auto simp add: viewer_on_message_def sendToAgent_def on_agent_ws_def on_viewer_ws_def
        Let_def split: if_splits option.splits)
qed

lemma viewer_on_close_pairing_nonempty:
  "\<forall>x. activeSessionByDevice st x \<noteq> Some [] \<Longrightarrow>
   \<forall>x. activeSessionByDevice (viewer_on_close st ws sid d) x \<noteq> Some []"
  by (simp add: viewer_on_close_def sendToAgent_def on_agent_ws_def on_viewer_ws_def Let_def
      split: option.splits)

lemma agent_on_close_pairing_nonempty:
  "\<forall>x. activeSessionByDevice st x \<noteq> Some [] \<Longrightarrow>
   \<forall>x. activeSessionByDevice (agent_on_close st ws d) x \<noteq> Some []"
  by (simp add: agent_on_close_def on_agent_ws_def on_viewer_ws_def Let_def
      split: option.splits)

lemma connect_keeps_pairings:
  "activeSessionByDevice (onAgentConnected st ws dev tok) = activeSessionByDevice st"
  "activeSessionByDevice (onViewerConnected st ws' sid tok now) = activeSessionByDevice st"
  "activeSessionByDevice (snd (postToken st authed dev sid' t uid now)) =
     activeSessionByDevice st"
  by (simp_all add: onAgentConnected_def onViewerConnected_def postToken_def
      attachHeartbeat_def on_agent_ws_def on_viewer_ws_def Let_def split: option.splits)

lemma agent_on_message_keeps_pairings:
  "activeSessionByDevice (agent_on_message st d m) = activeSessionByDevice st"
proof (cases m)
  case (BinaryMsg data)
  then show ?thesis
    by (simp add: forwardAudio_def on_viewer_ws_def Let_def split: option.splits)
next
  case (TextMsg parsed)
  then show ?thesis
    by (cases parsed) (simp_all add: on_viewer_ws_def Let_def split: option.splits)
qed

lemma sweep_pairing_nonempty:
  "\<forall>x. activeSessionByDevice st x \<noteq> Some [] \<Longrightarrow>
   \<forall>x. activeSessionByDevice (cleanupExpiredSessions st now) x \<noteq> Some []"
  by (simp add: cleanupExpiredSessions_def sweep_fold_active)

lemma postToken_distinct:
  "distinct (map fst (sessions st)) \<Longrightarrow>
   distinct (map fst (sessions (snd (postToken st authed dev sid tok uid now))))"
  by (simp add: postToken_def distinct_update)

lemma sweep_distinct:
  "distinct (map fst (sessions st)) \<Longrightarrow>
   distinct (map fst (sessions (cleanupExpiredSessions st now)))"
  by (simp add: cleanupExpiredSessions_def sweep_fold_sessions distinct_map_filter)

lemma inj_on_dom_upd:
  assumes "inj_on m (dom m)" and "v \<notin> ran m"
  shows "inj_on (m(k \<mapsto> v)) (dom (m(k \<mapsto> v)))"
proof (rule inj_onI)
  fix x y
  assume x: "x \<in> dom (m(k \<mapsto> v))" and y: "y \<in> dom (m(k \<mapsto> v))"
    and e: "(m(k \<mapsto> v)) x = (m(k \<mapsto> v)) y"
  show "x = y"
  proof (cases "x = k")
    case True
    with e have "(m(k \<mapsto> v)) y = Some v" by simp
    with assms(2) have "y = k"
      by (cases "y = k") (auto simp add: ran_def)
    with True show ?thesis by simp
  next
    case False
    with e have mx: "m x = (m(k \<mapsto> v)) y" by simp
    have "y \<noteq> k"
    proof
      assume "y = k"
      with mx have "m x = Some v" by simp
      with assms(2) show False by (auto simp add: ran_def)
    qed
    with mx False x y assms(1) show ?thesis
      by (auto dest: inj_onD)
  qed
qed

lemma onAgentConnected_one_to_one:
  assumes "inj_on (agents st) (dom (agents st))" and "ws \<notin> ran (agents st)"
  shows "inj_on (agents (onAgentConnected st ws dev tok))
           (dom (agents (onAgentConnected st ws dev tok)))"
proof (cases "\<not> truthy_str dev \<or> (agentSecret st \<noteq> [] \<and> tok \<noteq> Some (agentSecret st))")
  case True
  with assms(1) show ?thesis
    by (simp add: onAgentConnected_def on_agent_ws_def)
next
  case False
  then have "agents (onAgentConnected st ws dev tok) = (agents st)(the dev \<mapsto> ws)"
    by (auto simp add: onAgentConnected_def attachHeartbeat_def on_agent_ws_def Let_def
        split: option.splits)
  with inj_on_dom_upd [OF assms] show ?thesis by simp
qed

lemma onViewerConnected_one_to_one:
  assumes "inj_on (viewers st) (dom (viewers st))" and "ws \<notin> ran (viewers st)"
  shows "inj_on (viewers (onViewerConnected st ws sid tok now))
           (dom (viewers (onViewerConnected st ws sid tok now)))"
proof -
  have "viewers (onViewerConnected st ws sid tok now) = viewers st \<or>
        (\<exists>s. viewers (onViewerConnected st ws sid tok now) = (viewers st)(s \<mapsto> ws))"
    by (auto simp add: onViewerConnected_def attachHeartbeat_def on_viewer_ws_def Let_def
        split: option.splits)
  with assms(1) inj_on_dom_upd [OF assms] show ?thesis by auto
qed

section \<open>Properties of the viewer client\<close>

subsection \<open>Rounding to binary64\<close>

text \<open>
  What the scheduler needs of the rounding: it keeps the order, it keeps zero, and it
  keeps a value that is already a binary64 number.
\<close>

lemma rne_of_int: "rne (of_int n) = n"
  by (simp add: rne_def)

lemma rne_bounds: "\<lfloor>r\<rfloor> \<le> rne r" "rne r \<le> \<lfloor>r\<rfloor> + 1"
  by (simp_all add: rne_def Let_def)

lemma rne_mono:
  assumes "r \<le> s"
  shows "rne r \<le> rne s"
proof (cases "\<lfloor>r\<rfloor> < \<lfloor>s\<rfloor>")
  case True
  have "rne r \<le> \<lfloor>r\<rfloor> + 1" by (rule rne_bounds)
  also from True have "\<dots> \<le> \<lfloor>s\<rfloor>" by simp
  also have "\<dots> \<le> rne s" by (rule rne_bounds)
  finally show ?thesis .
next
  case False
  with assms have e: "\<lfloor>r\<rfloor> = \<lfloor>s\<rfloor>"
    using floor_mono [of r s] by simp
  with assms show ?thesis
    by (simp add: rne_def Let_def)
qed

lemma rne_ge: "of_int n \<le> r \<Longrightarrow> n \<le> rne r"
  using rne_mono [of "of_int n" r] by (simp add: rne_of_int)

lemma rne_le: "r \<le> of_int n \<Longrightarrow> rne r \<le> n"
  using rne_mono [of r "of_int n"] by (simp add: rne_of_int)

lemma two_powi_nat: "0 \<le> k \<Longrightarrow> (2 :: rat) powi k = of_int (2 ^ nat k)"
  by (simp add: power_int_def)

lemma bitlen_rat_bounds:
  assumes "0 < a"
  shows "(2 :: rat) powi (bitlen a - 1) \<le> of_int a" "of_int a < (2 :: rat) powi bitlen a"
proof -
  from assms have l: "1 \<le> bitlen a"
    by (simp add: bitlen_alt_def)
  from bitlen_bounds [OF assms] have "(2 :: int) ^ nat (bitlen a - 1) \<le> a" "a < 2 ^ nat (bitlen a)"
    by simp_all
  then have "(of_int (2 ^ nat (bitlen a - 1)) :: rat) \<le> of_int a"
    "(of_int a :: rat) < of_int (2 ^ nat (bitlen a))"
    by (simp_all only: of_int_le_iff of_int_less_iff)
  with l show "(2 :: rat) powi (bitlen a - 1) \<le> of_int a" "of_int a < (2 :: rat) powi bitlen a"
    by (simp_all add: two_powi_nat)
qed

lemma binade_bounds:
  assumes "0 < x"
  shows "2 powi binade x \<le> x" "x < 2 powi (binade x + 1)"
proof -
  obtain a b where q: "quotient_of x = (a, b)"
    by (cases "quotient_of x")
  then have b: "0 < b" and x: "x = of_int a / of_int b"
    by (simp_all add: quotient_of_denom_pos quotient_of_div)
  with assms have a: "0 < a"
    by (simp add: zero_less_divide_iff)
  let ?k = "bitlen a - bitlen b"
  note A = bitlen_rat_bounds [OF a]
  note B = bitlen_rat_bounds [OF b]
  have pos: "(0 :: rat) < of_int b" "(0 :: rat) < of_int a"
    using a b by simp_all
  have up: "x < 2 powi (?k + 1)"
  proof -
    have "of_int a < (2 :: rat) powi bitlen a" by (rule A)
    also have "\<dots> = 2 powi (?k + 1) * 2 powi (bitlen b - 1)"
      by (simp flip: power_int_add)
    also have "\<dots> \<le> 2 powi (?k + 1) * of_int b"
      using B(1) by (intro mult_left_mono) simp_all
    finally show ?thesis
      using pos by (simp add: x pos_divide_less_eq)
  qed
  have lo: "2 powi (?k - 1) \<le> x"
  proof -
    have "2 powi (?k - 1) * of_int b \<le> 2 powi (?k - 1) * (2 :: rat) powi bitlen b"
      using B(2) by (intro mult_left_mono) simp_all
    also have "\<dots> = 2 powi (bitlen a - 1)"
      by (simp flip: power_int_add)
    also have "\<dots> \<le> of_int a" by (rule A)
    finally show ?thesis
      using pos by (simp add: x pos_le_divide_eq)
  qed
  have bd: "binade x = (if 2 powi ?k \<le> x then ?k else ?k - 1)"
    using assms q by (simp add: binade_def Let_def)
  show "2 powi binade x \<le> x"
    using lo by (simp add: bd)
  show "x < 2 powi (binade x + 1)"
    using up by (auto simp add: bd)
qed

lemma two_powi_less_imp: "(2 :: rat) powi a < 2 powi b \<Longrightarrow> a < b"
  using power_int_increasing [of b a "2 :: rat"] by (cases "a < b") simp_all

lemma binade_unique:
  assumes "0 < x" and "2 powi e \<le> x" and "x < 2 powi (e + 1)"
  shows "binade x = e"
proof -
  note b = binade_bounds [OF assms(1)]
  from b(1) assms(3) have "(2 :: rat) powi binade x < 2 powi (e + 1)" by simp
  then have 1: "binade x < e + 1" by (rule two_powi_less_imp)
  from assms(2) b(2) have "(2 :: rat) powi e < 2 powi (binade x + 1)" by simp
  then have 2: "e < binade x + 1" by (rule two_powi_less_imp)
  from 1 2 show ?thesis by simp
qed

lemma binade_mono:
  assumes "0 < x" and "x \<le> y"
  shows "binade x \<le> binade y"
proof -
  from assms have y: "0 < y" by simp
  from binade_bounds(1) [OF assms(1)] assms(2) binade_bounds(2) [OF y]
  have "(2 :: rat) powi binade x < 2 powi (binade y + 1)" by simp
  then have "binade x < binade y + 1" by (rule two_powi_less_imp)
  then show ?thesis by simp
qed

lemma binade_abs: "binade \<bar>x\<bar> = binade x" "binade (- x) = binade x"
  by (simp_all add: binade_def)

lemma ulp_pos: "0 < ulp x"
  by (simp add: ulp_def)

lemma ulp_minus: "ulp (- x) = ulp x"
  by (simp add: ulp_def binade_abs)

lemma fl_zero: "fl 0 = 0"
  by (simp add: fl_def)

lemma fl_minus: "fl (- x) = - fl x"
  by (simp add: fl_def ulp_minus sgn_minus)

lemma fl_pos_eq: "0 < x \<Longrightarrow> fl x = of_int (rne (x / ulp x)) * ulp x"
  by (simp add: fl_def)

lemma fl_nonneg: "0 \<le> x \<Longrightarrow> 0 \<le> fl x"
proof (cases "x = 0")
  case True
  then show ?thesis by (simp add: fl_zero)
next
  case False
  assume "0 \<le> x"
  with False have x: "0 < x" by simp
  have "0 \<le> x / ulp x"
    using x ulp_pos [of x] by simp
  then have "0 \<le> rne (x / ulp x)"
    using rne_ge [of 0 "x / ulp x"] by simp
  with ulp_pos [of x] show ?thesis
    by (simp add: fl_pos_eq [OF x])
qed


lemma ulp_eq: "ulp x = 2 powi (max (binade x) (- 1022) - 52)"
  by (simp add: ulp_def)

lemma fl_upper:
  assumes "0 < x"
  shows "fl x \<le> 2 powi (max (binade x) (- 1022) + 1)"
proof -
  let ?e = "max (binade x) (- 1022)"
  have "x < 2 powi (binade x + 1)" by (rule binade_bounds [OF assms])
  also have "\<dots> \<le> 2 powi (?e + 1)"
    by (intro power_int_increasing) simp_all
  also have "\<dots> = 2 ^ 53 * ulp x"
    by (simp add: ulp_eq power_int_diff power_int_add)
  finally have "x / ulp x \<le> of_int (2 ^ 53)"
    using ulp_pos [of x] by (simp add: pos_divide_le_eq)
  then have "rne (x / ulp x) \<le> 2 ^ 53" by (rule rne_le)
  then have "(of_int (rne (x / ulp x)) :: rat) \<le> of_int (2 ^ 53)"
    by (simp only: of_int_le_iff)
  then have "of_int (rne (x / ulp x)) * ulp x \<le> 2 ^ 53 * ulp x"
    using ulp_pos [of x] by simp
  also have "\<dots> = 2 powi (?e + 1)"
    by (simp add: ulp_eq power_int_diff power_int_add)
  finally show ?thesis
    by (simp add: fl_pos_eq [OF assms])
qed

lemma fl_lower:
  assumes "0 < x" and "- 1022 \<le> binade x"
  shows "2 powi binade x \<le> fl x"
proof -
  from assms(2) have u: "ulp x = 2 powi (binade x - 52)"
    by (simp add: ulp_eq max_def)
  have "2 ^ 52 * ulp x = 2 powi binade x"
    by (simp add: u power_int_diff)
  also have "\<dots> \<le> x" by (rule binade_bounds [OF assms(1)])
  finally have "of_int (2 ^ 52) \<le> x / ulp x"
    using ulp_pos [of x] by (simp add: pos_le_divide_eq)
  then have "2 ^ 52 \<le> rne (x / ulp x)" by (rule rne_ge)
  then have "(of_int (2 ^ 52) :: rat) \<le> of_int (rne (x / ulp x))"
    by (simp only: of_int_le_iff)
  then have "2 ^ 52 * ulp x \<le> of_int (rne (x / ulp x)) * ulp x"
    using ulp_pos [of x] by simp
  moreover have "2 ^ 52 * ulp x = 2 powi binade x"
    by (simp add: u power_int_diff)
  ultimately show ?thesis
    by (simp add: fl_pos_eq [OF assms(1)])
qed

lemma fl_mono_pos:
  assumes "0 < x" and "x \<le> y"
  shows "fl x \<le> fl y"
proof -
  from assms have y: "0 < y" by simp
  let ?ex = "max (binade x) (- 1022)" and ?ey = "max (binade y) (- 1022)"
  from binade_mono [OF assms] have le: "?ex \<le> ?ey" by simp
  show ?thesis
  proof (cases "?ex = ?ey")
    case True
    then have u: "ulp x = ulp y" by (simp add: ulp_eq)
    from assms(2) have "x / ulp y \<le> y / ulp y"
      using ulp_pos [of y] by (simp add: divide_right_mono)
    then have "rne (x / ulp y) \<le> rne (y / ulp y)" by (rule rne_mono)
    then have "(of_int (rne (x / ulp y)) :: rat) \<le> of_int (rne (y / ulp y))"
      by (simp only: of_int_le_iff)
    then show ?thesis
      using ulp_pos [of y] by (simp add: fl_pos_eq [OF assms(1)] fl_pos_eq [OF y] u)
  next
    case False
    with le have lt: "?ex < ?ey" by linarith
    then have n: "- 1022 \<le> binade y" and ey: "?ey = binade y"
      by (simp_all add: max_def split: if_splits)
    have "fl x \<le> 2 powi (?ex + 1)" by (rule fl_upper [OF assms(1)])
    also have "\<dots> \<le> 2 powi ?ey"
    proof (rule power_int_increasing)
      from lt show "?ex + 1 \<le> ?ey" by linarith
    qed simp
    also have "\<dots> \<le> fl y"
      unfolding ey by (rule fl_lower [OF y n])
    finally show ?thesis .
  qed
qed

lemma fl_mono:
  assumes "x \<le> y"
  shows "fl x \<le> fl y"
proof (cases "0 < x")
  case True
  then show ?thesis using assms by (rule fl_mono_pos)
next
  case False
  then have x: "x \<le> 0" by simp
  show ?thesis
  proof (cases "0 \<le> y")
    case True
    from x have "0 \<le> fl (- x)" by (intro fl_nonneg) simp
    then have "fl x \<le> 0" by (simp add: fl_minus)
    also from True have "0 \<le> fl y" by (rule fl_nonneg)
    finally show ?thesis .
  next
    case False
    with assms have "0 < - y" "- y \<le> - x" by simp_all
    then have "fl (- y) \<le> fl (- x)" by (rule fl_mono_pos)
    then show ?thesis by (simp add: fl_minus)
  qed
qed

lemma fl_grid:
  assumes "0 < z" and "z = of_int n * 2 powi k" and "max (binade z) (- 1022) - 52 \<le> k"
  shows "fl z = z"
proof -
  define k' where "k' = max (binade z) (- 1022) - 52"
  have u: "ulp z = 2 powi k'" by (simp add: ulp_eq k'_def)
  from assms(3) have le: "k' \<le> k" by (simp add: k'_def)
  define m where "m = n * 2 ^ nat (k - k')"
  have "(2 :: rat) powi k = 2 powi (k - k') * 2 powi k'"
    by (simp flip: power_int_add)
  also from le have "(2 :: rat) powi (k - k') = of_int (2 ^ nat (k - k'))"
    by (intro two_powi_nat) simp
  finally have "of_int n * (2 :: rat) powi k = of_int m * 2 powi k'"
    by (simp add: m_def)
  then have "of_int n * (2 :: rat) powi k = of_int m * ulp z"
    by (simp only: u)
  with assms(2) have zm: "z = of_int m * ulp z"
    by (rule trans)
  have "z / ulp z = of_int m * ulp z / ulp z"
    using zm by simp
  also have "\<dots> = of_int m"
    using ulp_pos [of z] by simp
  finally have "rne (z / ulp z) = m"
    by (simp only: rne_of_int)
  then have "fl z = of_int m * ulp z"
    by (simp add: fl_pos_eq [OF assms(1)])
  with zm show ?thesis by simp
qed

lemma fl_idem_pos:
  assumes "0 < x"
  shows "fl (fl x) = fl x"
proof (cases "fl x = 0")
  case True
  then show ?thesis by (simp add: fl_zero)
next
  case False
  let ?e = "max (binade x) (- 1022)"
  from assms have "0 \<le> fl x" by (intro fl_nonneg) simp
  with False have z: "0 < fl x" by simp
  have rep: "fl x = of_int (rne (x / ulp x)) * 2 powi (?e - 52)"
    by (simp add: fl_pos_eq [OF assms] ulp_eq)
  show ?thesis
  proof (cases "fl x < 2 powi (?e + 1)")
    case True
    with binade_bounds(1) [OF z] have "(2 :: rat) powi binade (fl x) < 2 powi (?e + 1)"
      by simp
    then have "binade (fl x) < ?e + 1" by (rule two_powi_less_imp)
    then have "max (binade (fl x)) (- 1022) - 52 \<le> ?e - 52" by simp
    with z rep show ?thesis by (rule fl_grid)
  next
    case False
    with fl_upper [OF assms] have eq: "fl x = 2 powi (?e + 1)" by simp
    have "binade (fl x) = ?e + 1"
      unfolding eq by (intro binade_unique power_int_strict_increasing) simp_all
    then have k: "max (binade (fl x)) (- 1022) - 52 \<le> ?e + 1 - 52" by simp
    have "(2 :: rat) powi (52 + (?e + 1 - 52)) = 2 powi 52 * 2 powi (?e + 1 - 52)"
      by (rule power_int_add) simp
    then have "fl x = of_int (2 ^ 52) * 2 powi (?e + 1 - 52)"
      by (simp add: eq add.commute)
    with z show ?thesis using k by (rule fl_grid)
  qed
qed

lemma fl_idem: "fl (fl x) = fl x"
proof (cases "0 < x")
  case True
  then show ?thesis by (rule fl_idem_pos)
next
  case False
  show ?thesis
  proof (cases "x = 0")
    case True
    then show ?thesis by (simp add: fl_zero)
  next
    case False
    with \<open>\<not> 0 < x\<close> have "0 < - x" by simp
    then have "fl (fl (- x)) = fl (- x)" by (rule fl_idem_pos)
    then show ?thesis by (simp add: fl_minus)
  qed
qed

text \<open>An integer below \<open>2 ^ 53\<close> in magnitude is a number as it stands.\<close>

declare excess_bits.simps [simp del]

lemma excess_bits_small: "a < 2 ^ 53 \<Longrightarrow> excess_bits a = 0"
  by (subst excess_bits.simps) simp

lemma to_number_small: "\<bar>x\<bar> < 2 ^ 53 \<Longrightarrow> to_number x = x"
proof -
  assume a: "\<bar>x\<bar> < 2 ^ 53"
  then have "nat \<bar>x\<bar> < 2 ^ 53"
    by (simp add: nat_less_iff)
  then have "excess_bits (nat \<bar>x\<bar>) = 0"
    by (rule excess_bits_small)
  then have "to_number x = sgn x * \<bar>x\<bar>"
    by (simp add: to_number_def Let_def)
  then show ?thesis
    by (simp add: mult_sgn_abs)
qed

lemma fl_values:
  "fl 5 = 5" "fl 20000 = 20000" "fl 40000 = 40000" "fl 10000 = 10000" "fl 30000 = 30000"
  "fl 1 = 1" "fl 2 = 2" "fl (1 / 16) = 1 / 16"
  by code_simp+


subsection \<open>The playout scheduler\<close>


lemma establishBase_known: "baseTimestampUs p \<noteq> None \<Longrightarrow> establishBase p c t = p"
  by (auto simp add: establishBase_def)

lemma establishBase_ctxReady: "ctxReady (establishBase p c t) = ctxReady p"
  by (simp add: establishBase_def)







lemma frame20_fields:
  "timestamp (frame20 us) = us" "numberOfChannels (frame20 us) = 2"
  "numberOfFrames (frame20 us) = 960" "sampleRate (frame20 us) = 48000"
  by (simp_all add: frame20_def)

text \<open>
  A 20 ms frame stamped \<open>us\<close> microseconds, handled by a player whose base timestamp is 0,
  at a clock reading that has not passed the playhead: it starts at the later of the
  playhead and its target time, and the playhead moves 20 ms past that start.
\<close>

lemma handleDecoded_prompt:
  assumes "ctxReady p" and "baseTimestampUs p = Some 0"
    and "rateMin p \<le> 48000" and "48000 \<le> rateMax p" and "2 \<le> channelMax p"
    and "\<bar>us\<bar> < 2 ^ 53" and "c \<le> playHead p" and "0 \<le> playHead p"
  shows "handleDecoded p c (frame20 us) =
           (p\<lparr>playHead :=
                 plus20ms (max (playHead p) (fl (playStart p + fl (fl (of_int us) / 1000000))))\<rparr>,
            Started (max (playHead p) (fl (playStart p + fl (fl (of_int us) / 1000000)))))"
proof -
  have e: "establishBase p c us = p"
    using assms(2) by (simp add: establishBase_known)
  have t: "targetTime p us = fl (playStart p + fl (fl (of_int us) / 1000000))"
    using assms(2,6) by (simp add: targetTime_def to_number_small)
  have m: "max c (max (playHead p) (targetTime p us)) = max (playHead p) (targetTime p us)"
    using assms(7) by (simp add: max_def)
  have n: "\<not> max (playHead p) (targetTime p us) < 0"
    using assms(8) by (simp add: max_def)
  show ?thesis
    using assms(1,3,4,5) n
    by (simp add: handleDecoded_def Let_def frame20_fields e m plus20ms_def flip: t)
qed

text \<open>Three prompt frames, call by call.\<close>

lemma prompt_schedule:
  assumes "ctxReady p" and "baseTimestampUs p = None" and "jitterSec p = fl (2 / 25)"
    and "rateMin p \<le> 48000" and "48000 \<le> rateMax p" and "2 \<le> channelMax p"
    and "0 \<le> c1" and "fl c1 = c1"
    and "c2 \<le> plus20ms (playoutOrigin c1)"
    and "c3 \<le> plus20ms (plus20ms (playoutOrigin c1))"
  shows "playout p [(c1, frame20 0), (c2, frame20 20000), (c3, frame20 40000)] =
           [(playoutOrigin c1, plus20ms (playoutOrigin c1)),
            (plus20ms (playoutOrigin c1), plus20ms (plus20ms (playoutOrigin c1))),
            (max (plus20ms (plus20ms (playoutOrigin c1))) (fl (playoutOrigin c1 + fl (1 / 25))),
             plus20ms (max (plus20ms (plus20ms (playoutOrigin c1)))
                          (fl (playoutOrigin c1 + fl (1 / 25)))))]"
proof -
  define og where "og = playoutOrigin c1"
  define e1 where "e1 = plus20ms og"
  define e2 where "e2 = plus20ms e1"
  define p1 where "p1 = p\<lparr>baseTimestampUs := Some 0, playStart := og, playHead := e1\<rparr>"
  have j: "(0 :: rat) \<le> fl (2 / 25)" and d: "(0 :: rat) \<le> fl (1 / 50)"
    by (simp_all add: fl_nonneg)
  from j have "fl c1 \<le> fl (c1 + fl (2 / 25))"
    by (intro fl_mono) simp
  with assms(8) have c1o: "c1 \<le> og"
    by (simp add: og_def playoutOrigin_def)
  with assms(7) have o0: "0 \<le> og" by simp
  have oo: "fl og = og"
    by (simp add: og_def playoutOrigin_def fl_idem)
  from d o0 have "fl 0 \<le> fl (og + fl (1 / 50))"
    by (intro fl_mono) simp
  then have e10: "0 \<le> e1"
    by (simp add: e1_def plus20ms_def fl_zero)
  from d e10 have "fl 0 \<le> fl (e1 + fl (1 / 50))"
    by (intro fl_mono) simp
  then have e20: "0 \<le> e2"
    by (simp add: e2_def plus20ms_def fl_zero)
  have eb: "establishBase p c1 0 =
              p\<lparr>baseTimestampUs := Some 0, playStart := og, playHead := og\<rparr>"
    using assms(2,3)
    by (simp add: establishBase_def to_number_small og_def playoutOrigin_def)
  have t1: "targetTime (establishBase p c1 0) 0 = og"
    by (simp add: eb targetTime_def to_number_small fl_zero oo)
  have m1: "max c1 og = og"
    using c1o by (simp add: max_def)
  have h1: "handleDecoded p c1 (frame20 0) = (p1, Started og)"
    using assms(1,4,5,6) o0
    by (simp add: handleDecoded_def Let_def frame20_fields t1 [unfolded eb] eb m1 p1_def
        e1_def plus20ms_def)
  have f: "ctxReady p1" "baseTimestampUs p1 = Some 0" "rateMin p1 \<le> 48000"
    "48000 \<le> rateMax p1" "2 \<le> channelMax p1" "playStart p1 = og" "playHead p1 = e1"
    using assms(1,4,5,6) by (simp_all add: p1_def)
  have t2: "fl (og + fl (fl 20000 / 1000000)) = e1"
    by (simp add: fl_values e1_def plus20ms_def)
  have c2le: "c2 \<le> playHead p1" and ph1: "0 \<le> playHead p1"
    using assms(9) e10 by (simp_all add: f e1_def og_def)
  have s2: "\<bar>20000 :: int\<bar> < 2 ^ 53" and s3: "\<bar>40000 :: int\<bar> < 2 ^ 53"
    by simp_all
  define p2 where "p2 = p1\<lparr>playHead := e2\<rparr>"
  have h2: "handleDecoded p1 c2 (frame20 20000) = (p2, Started e1)"
    using handleDecoded_prompt [OF f(1-5) s2 c2le ph1]
    by (simp add: f t2 e2_def p2_def)
  have g: "ctxReady p2" "baseTimestampUs p2 = Some 0" "rateMin p2 \<le> 48000"
    "48000 \<le> rateMax p2" "2 \<le> channelMax p2" "playStart p2 = og" "playHead p2 = e2"
    using f by (simp_all add: p2_def)
  have t3: "fl (og + fl (fl 40000 / 1000000)) = fl (og + fl (1 / 25))"
    by (simp add: fl_values)
  have c3le: "c3 \<le> playHead p2" and ph2: "0 \<le> playHead p2"
    using assms(10) e20 by (simp_all add: g e2_def e1_def og_def)
  have h3: "handleDecoded p2 c3 (frame20 40000) =
              (p2\<lparr>playHead := plus20ms (max e2 (fl (og + fl (1 / 25))))\<rparr>,
               Started (max e2 (fl (og + fl (1 / 25)))))"
    using handleDecoded_prompt [OF g(1-5) s3 c3le ph2]
    by (simp add: g t3)
  have "playout p [(c1, frame20 0), (c2, frame20 20000), (c3, frame20 40000)] =
           [(og, e1), (e1, e2),
            (max e2 (fl (og + fl (1 / 25))), plus20ms (max e2 (fl (og + fl (1 / 25)))))]"
    by (simp add: h1 h2 h3 f g)
  then show ?thesis
    by (simp only: e2_def e1_def og_def)
qed

text \<open>
  Claim C7, as the code has it. The player is initialised with the jitter budget of 80 ms
  and has seen no frame of this stream; the clock reading \<open>c1\<close> of the first call is a
  number. Three decoded frames of 20 ms with timestamps 0 ms, 20 ms and 40 ms arrive
  promptly: the second is handled before the clock passes the end of the first, the third
  before it passes the end of the second. The first frame starts at the playout origin,
  the clock reading plus 80 ms. The second starts exactly at the end of the first, which
  is the first start plus 20 ms as the code adds it. The third starts at the later of two
  numbers: the end of the second frame, and the playout origin plus 40 ms. Frames never
  overlap. The two numbers are equal in exact arithmetic and can differ after rounding;
  then the third frame starts after the end of the second.
\<close>

theorem three_prompt_frames:
  assumes "ctxReady p" and "baseTimestampUs p = None" and "jitterSec p = fl (2 / 25)"
    and "rateMin p \<le> 48000" and "48000 \<le> rateMax p" and "2 \<le> channelMax p"
    and "0 \<le> c1" and "fl c1 = c1"
    and "c2 \<le> plus20ms (playoutOrigin c1)"
    and "c3 \<le> plus20ms (plus20ms (playoutOrigin c1))"
  shows "playout p [(c1, frame20 0), (c2, frame20 20000), (c3, frame20 40000)] =
           [(playoutOrigin c1, plus20ms (playoutOrigin c1)),
            (plus20ms (playoutOrigin c1), plus20ms (plus20ms (playoutOrigin c1))),
            (max (plus20ms (plus20ms (playoutOrigin c1))) (fl (playoutOrigin c1 + fl (1 / 25))),
             plus20ms (max (plus20ms (plus20ms (playoutOrigin c1)))
                          (fl (playoutOrigin c1 + fl (1 / 25)))))]"
  using assms by (rule prompt_schedule)

lemma prompt_clocks:
  "fl (501 / 100) \<le> plus20ms (playoutOrigin 5)"
  "fl (503 / 100) \<le> plus20ms (plus20ms (playoutOrigin 5))"
  "playoutOrigin 5 = fl (127 / 25)"
  "plus20ms (fl (127 / 25)) = fl (51 / 10)"
  "fl (fl (127 / 25) + fl (1 / 25)) = fl (128 / 25)"
  "plus20ms (fl (51 / 10)) < fl (128 / 25)"
  "fl (51 / 10) + 1 / 50 < fl (128 / 25)"
  by (simp_all only: plus20ms_def playoutOrigin_def) code_simp+

theorem three_prompt_frames_witness:
  "playout (init (MeshAudioPlayer 3000 768000 32))
     [(5, frame20 0), (fl (501 / 100), frame20 20000), (fl (503 / 100), frame20 40000)] =
   [(fl (127 / 25), fl (51 / 10)),
    (fl (51 / 10), plus20ms (fl (51 / 10))),
    (fl (128 / 25), plus20ms (fl (128 / 25)))]"
proof -
  have "ctxReady (init (MeshAudioPlayer 3000 768000 32))"
    and "baseTimestampUs (init (MeshAudioPlayer 3000 768000 32)) = None"
    and "jitterSec (init (MeshAudioPlayer 3000 768000 32)) = fl (2 / 25)"
    and "rateMin (init (MeshAudioPlayer 3000 768000 32)) \<le> 48000"
    and "48000 \<le> rateMax (init (MeshAudioPlayer 3000 768000 32))"
    and "2 \<le> channelMax (init (MeshAudioPlayer 3000 768000 32))"
    and "(0 :: rat) \<le> 5" and "fl 5 = 5"
    by (simp_all add: init_def MeshAudioPlayer_def fl_values)
  from three_prompt_frames [OF this prompt_clocks(1,2)] prompt_clocks(6)
  show ?thesis
    by (simp add: prompt_clocks(3,4,5) max_def)
qed

text \<open>
  The first frame is handled at clock 5, the others at 5.01 and 5.03. The starts are
  5.08, 5.1 and 5.12. The second frame ends at 5.1 plus 0.02 as the code adds them, which
  is below 5.12, and so is the exact sum: the third frame does not start at its
  predecessor's start plus 20 ms, and a gap is left.
\<close>

theorem third_frame_leaves_gap:
  "playout (init (MeshAudioPlayer 3000 768000 32))
     [(5, frame20 0), (fl (501 / 100), frame20 20000), (fl (503 / 100), frame20 40000)] =
   [(fl (127 / 25), fl (51 / 10)),
    (fl (51 / 10), plus20ms (fl (51 / 10))),
    (fl (128 / 25), plus20ms (fl (128 / 25)))]
   \<and> plus20ms (fl (51 / 10)) < fl (128 / 25)
   \<and> fl (51 / 10) + 1 / 50 < fl (128 / 25)"
proof -
  have "ctxReady (init (MeshAudioPlayer 3000 768000 32))"
    and "baseTimestampUs (init (MeshAudioPlayer 3000 768000 32)) = None"
    and "jitterSec (init (MeshAudioPlayer 3000 768000 32)) = fl (2 / 25)"
    and "rateMin (init (MeshAudioPlayer 3000 768000 32)) \<le> 48000"
    and "48000 \<le> rateMax (init (MeshAudioPlayer 3000 768000 32))"
    and "2 \<le> channelMax (init (MeshAudioPlayer 3000 768000 32))"
    and "(0 :: rat) \<le> 5" and "fl 5 = 5"
    by (simp_all add: init_def MeshAudioPlayer_def fl_values)
  from prompt_schedule [OF this prompt_clocks(1,2)] prompt_clocks(6,7)
  show ?thesis
    by (simp add: prompt_clocks(3,4,5) max_def)
qed






subsection \<open>Parsing a binary frame\<close>

lemma le_value_sum: "le_value bs = (\<Sum>i<length bs. unat (bs ! i) * 256 ^ i)"
proof (induction bs)
  case Nil
  then show ?case by simp
next
  case (Cons x xs)
  have "(\<Sum>i<length (x # xs). unat ((x # xs) ! i) * 256 ^ i) =
          unat x + (\<Sum>i<length xs. unat (xs ! i) * 256 ^ Suc i)"
    by (simp add: sum.lessThan_Suc_shift del: sum.lessThan_Suc)
  also have "(\<Sum>i<length xs. unat (xs ! i) * 256 ^ Suc i) =
          256 * (\<Sum>i<length xs. unat (xs ! i) * 256 ^ i)"
    by (simp add: sum_distrib_left mult.assoc mult.left_commute)
  finally show ?case
    by (simp add: Cons.IH)
qed

lemma le_value_take_drop:
  assumes "off + n \<le> length b"
  shows "le_value (take n (drop off b)) = (\<Sum>i<n. unat (b ! (off + i)) * 256 ^ i)"
proof -
  from assms have l: "length (take n (drop off b)) = n"
    by simp
  have "le_value (take n (drop off b)) =
          (\<Sum>i<n. unat (take n (drop off b) ! i) * 256 ^ i)"
    by (simp only: le_value_sum l)
  also have "\<dots> = (\<Sum>i<n. unat (b ! (off + i)) * 256 ^ i)"
    using assms by (intro sum.cong refl) simp
  finally show ?thesis .
qed

lemma getUint32_wire:
  "off + 4 \<le> length b \<Longrightarrow>
   getUint32 b off = Inr (\<Sum>i<4. unat (b ! (off + i)) * 256 ^ i)"
  by (simp add: getUint32_def le_value_take_drop)

lemma getBigInt64_wire:
  "off + 8 \<le> length b \<Longrightarrow>
   getBigInt64 b off = Inr (as_signed64 (\<Sum>i<8. unat (b ! (off + i)) * 256 ^ i))"
  by (simp only: getBigInt64_def le_value_take_drop as_signed64_def Let_def if_True)

lemma sum_lt_4: "(\<Sum>i<4. f i) = f 0 + f 1 + f 2 + (f (3::nat) :: nat)"
  by (simp add: lessThan_nat_numeral lessThan_Suc)

lemma sum_lt_8:
  "(\<Sum>i<8. f i) = f 0 + f 1 + f 2 + f 3 + f 4 + f 5 + f 6 + (f (7::nat) :: nat)"
  by (simp add: lessThan_nat_numeral lessThan_Suc)

lemma split_hi_lo:
  "int (\<Sum>i<4. unat ((b :: 8 word list) ! (9 + i)) * 256 ^ i) * 4294967296 +
   int (\<Sum>i<4. unat (b ! (5 + i)) * 256 ^ i) =
   int (\<Sum>i<8. unat (b ! (5 + i)) * 256 ^ i)"
  by (simp add: sum_lt_4 sum_lt_8)

lemma getUint8_marker:
  "1 \<le> length b \<Longrightarrow> getUint8 b 0 = Inr (unat (b ! 0))"
  by (simp add: getUint8_def)

lemma handleBinary_short: "length b < 13 \<Longrightarrow> handleBinary c b = Inr c"
  by (simp add: handleBinary_def)

lemma handleBinary_other_marker:
  assumes "13 \<le> length b" and "b ! 0 \<noteq> 1"
  shows "handleBinary c b = Inr c"
proof -
  from assms(2) have "unat (b ! 0) \<noteq> 1"
    by (simp add: word_unat_eq_iff)
  with assms(1) show ?thesis
    by (simp add: handleBinary_def bindE_def getUint8_def)
qed

lemma handleBinary_timestamp:
  assumes "13 \<le> length b" and "b ! 0 = 1"
  shows "handleBinary c b =
           bindE (enqueue (player c) (wire_payload b)
                    (to_number (if hasGetBigInt64 c then as_signed64 (wire_timestamp b)
                                else int (wire_timestamp b))))
             (\<lambda>pl. let c1 = c\<lparr>player := pl\<rparr>
                   in Inr (if state c1 \<noteq> ''streaming'' then setState c1 ''streaming''
                           else c1))"
proof -
  from assms(1) have r: "getUint32 b 1 = Inr (wire_sequence b)"
    "getUint32 b 5 = Inr (\<Sum>i<4. unat (b ! (5 + i)) * 256 ^ i)"
    "getUint32 b 9 = Inr (\<Sum>i<4. unat (b ! (9 + i)) * 256 ^ i)"
    "getBigInt64 b 5 = Inr (as_signed64 (wire_timestamp b))"
    by (simp_all add: getUint32_wire getBigInt64_wire wire_sequence_def wire_timestamp_def)
  from assms have m: "getUint8 b 0 = Inr 1"
    by (simp add: getUint8_def)
  from assms(1) have l: "\<not> length b < 13"
    by simp
  show ?thesis
  proof (cases "hasGetBigInt64 c")
    case True
    with l m r show ?thesis
      by (simp add: handleBinary_def bindE_def wire_payload_def Let_def)
  next
    case False
    have "handleBinary c b =
            bindE (enqueue (player c) (wire_payload b)
                    (to_number (int (\<Sum>i<4. unat (b ! (9 + i)) * 256 ^ i) * 4294967296 +
                                int (\<Sum>i<4. unat (b ! (5 + i)) * 256 ^ i))))
             (\<lambda>pl. let c1 = c\<lparr>player := pl\<rparr>
                   in Inr (if state c1 \<noteq> ''streaming'' then setState c1 ''streaming''
                           else c1))"
      using False l m r
      by (simp add: handleBinary_def bindE_def wire_payload_def Let_def
          del: of_nat_sum of_nat_mult)
    then show ?thesis
      using False by (simp only: split_hi_lo wire_timestamp_def if_False)
  qed
qed

text \<open>
  With a decoder, \<^verbatim>\<open>enqueue\<close> ends in the constructor's \<^verbatim>\<open>TypeError\<close>; without one it
  returns at once.
\<close>

lemma enqueue_with_decoder:
  "decoder p = Some q \<Longrightarrow> enqueue p data ts = Inl TypeError"
  by (simp add: enqueue_def EncodedAudioChunk_def bindE_def)

lemma enqueue_without_decoder:
  "decoder p = None \<Longrightarrow> enqueue p data ts = Inr p"
  by (simp add: enqueue_def)

lemma timestamp_in_range:
  assumes "wire_timestamp b < 2 ^ 53"
  shows "to_number (if g then as_signed64 (wire_timestamp b) else int (wire_timestamp b)) =
           int (wire_timestamp b)"
proof -
  from assms have i: "int (wire_timestamp b) < 2 ^ 53"
    by simp
  then have "as_signed64 (wire_timestamp b) = int (wire_timestamp b)"
    by (simp add: as_signed64_def)
  moreover from i have "to_number (int (wire_timestamp b)) = int (wire_timestamp b)"
    by (intro to_number_small) simp
  ultimately show ?thesis by simp
qed

text \<open>
  Claim C9. A binary message shorter than 13 bytes, or whose first byte is not 1, leaves
  the client as it was, and for any other message the client reads bytes 1 to 4 as a
  little-endian 32-bit sequence number, bytes 5 to 12 as a little-endian 64-bit timestamp
  in milliseconds, and calls \<^verbatim>\<open>enqueue\<close> with the bytes from offset 13 on and that
  timestamp (\<open>handleBinary_timestamp\<close>). There the code parts from the claim: when the
  player has a decoder, \<^verbatim>\<open>enqueue\<close> gives the chunk constructor a BigInt timestamp, the
  constructor throws \<^verbatim>\<open>TypeError\<close>, and \<^verbatim>\<open>handleBinary\<close> ends with that exception.
  No payload reaches the decoder and the client does not become \<^verbatim>\<open>streaming\<close>. Without
  a decoder the frame is discarded and the client becomes \<^verbatim>\<open>streaming\<close>.
\<close>

theorem handleBinary_throws:
  "(length b < 13 \<or> b ! 0 \<noteq> 1 \<longrightarrow> handleBinary c b = Inr c)
   \<and> (13 \<le> length b \<and> b ! 0 = 1 \<longrightarrow>
        getUint32 b 1 = Inr (wire_sequence b)
        \<and> (\<forall>q. decoder (player c) = Some q \<longrightarrow> handleBinary c b = Inl TypeError)
        \<and> (decoder (player c) = None \<longrightarrow>
              (\<exists>c'. handleBinary c b = Inr c' \<and> player c' = player c \<and>
                    state c' = ''streaming'')))"
proof (intro conjI impI allI)
  assume "length b < 13 \<or> b ! 0 \<noteq> 1"
  then show "handleBinary c b = Inr c"
  proof
    assume "length b < 13"
    then show ?thesis by (rule handleBinary_short)
  next
    assume m: "b ! 0 \<noteq> 1"
    show ?thesis
    proof (cases "length b < 13")
      case True
      then show ?thesis by (rule handleBinary_short)
    next
      case False
      then have "13 \<le> length b" by simp
      then show ?thesis using m by (rule handleBinary_other_marker)
    qed
  qed
next
  assume "13 \<le> length b \<and> b ! 0 = 1"
  then show "getUint32 b 1 = Inr (wire_sequence b)"
    by (simp add: getUint32_wire wire_sequence_def)
next
  fix q
  assume a: "13 \<le> length b \<and> b ! 0 = 1" and d: "decoder (player c) = Some q"
  from a have l: "13 \<le> length b" and m: "b ! 0 = 1"
    by simp_all
  show "handleBinary c b = Inl TypeError"
    by (simp add: handleBinary_timestamp [OF l m] enqueue_with_decoder [OF d] bindE_def)
next
  assume a: "13 \<le> length b \<and> b ! 0 = 1" and d: "decoder (player c) = None"
  from a have l: "13 \<le> length b" and m: "b ! 0 = 1"
    by simp_all
  show "\<exists>c'. handleBinary c b = Inr c' \<and> player c' = player c \<and> state c' = ''streaming''"
    by (simp add: handleBinary_timestamp [OF l m] enqueue_without_decoder [OF d] bindE_def
        Let_def setState_def)
qed

lemma scn_frame_fields:
  "length scn_frame = 15" "scn_frame ! 0 = 1" "wire_sequence scn_frame = 5"
  "wire_timestamp scn_frame = 10000" "wire_payload scn_frame = [170, 187]"
  by (simp_all add: scn_frame_def wire_sequence_def wire_timestamp_def wire_payload_def
      sum_lt_4 sum_lt_8)

theorem handleBinary_throws_witness:
  "handleBinary scn_client [1, 2, 3] = Inr scn_client
   \<and> handleBinary scn_client (2 # tl scn_frame) = Inr scn_client
   \<and> getUint32 scn_frame 1 = Inr 5
   \<and> decoder (player scn_client) = Some []
   \<and> handleBinary scn_client scn_frame = Inl TypeError"
proof -
  have d: "decoder (player scn_client) = Some []"
    by (simp add: scn_client_def init_def MeshAudioPlayer_def)
  have s: "13 \<le> length scn_frame \<and> scn_frame ! 0 = 1"
    by (simp add: scn_frame_fields)
  have 1: "handleBinary scn_client [1, 2, 3] = Inr scn_client"
    using handleBinary_throws [of "[1, 2, 3]" scn_client] by simp
  have 2: "handleBinary scn_client (2 # tl scn_frame) = Inr scn_client"
    using handleBinary_throws [of "2 # tl scn_frame" scn_client] by simp
  from handleBinary_throws [of scn_frame scn_client] s
  have 3: "getUint32 scn_frame 1 = Inr (wire_sequence scn_frame)"
    and 4: "\<forall>q. decoder (player scn_client) = Some q \<longrightarrow>
              handleBinary scn_client scn_frame = Inl TypeError"
    by blast+
  from 4 d have "handleBinary scn_client scn_frame = Inl TypeError"
    by blast
  with 1 2 3 d show ?thesis
    by (simp add: scn_frame_fields)
qed

end
